theory Spec2Isabelle
  imports Main
begin

section \<open>Errors\<close>

text \<open>
  The notebooks are Python; every exception that one of the modelled calls can raise is a
  value of \<open>error\<close>. The constructor says which Python class is raised, and with that who
  raises it: the bare \<open>Exception\<close> is constructed only by the notebook's own
  \<open>choose_loader\<close>; the others are raised by the interpreter (\<open>KeyError\<close> of a dict
  lookup, \<open>IndexError\<close>, \<open>ZeroDivisionError\<close>) or by a library (\<open>KeyError\<close> of
  zipline's \<open>Pipeline.add\<close>, the type and attribute errors of the tensor library on a
  value of the wrong kind, \<open>RuntimeError\<close> of torch's \<open>load_state_dict\<close>,
  \<open>FileNotFoundError\<close> of \<open>torch.load\<close>).
\<close>

datatype load_problem =
    MissingKeys "string list"
  | UnexpectedKeys "string list"
  | SizeMismatch string "nat list" "nat list"

datatype error =
    Exception string
  | KeyError string
  | TypeError string
  | AttributeError string
  | RuntimeError "load_problem list"
  | FileNotFoundError string
  | IndexError
  | ZeroDivisionError


section \<open>The zipline exercise notebook\<close>

subsection \<open>Columns and the loader\<close>

text \<open>
  A bound column of a data set, as \<open>USEquityPricing.close\<close> (printed by the notebook as
  \<open>USEquityPricing.close::float64\<close>).
\<close>

datatype bound_column = BoundColumn (dataset: string) (column_name: string)

definition USEquityPricing_close :: bound_column where
  "USEquityPricing_close = BoundColumn ''USEquityPricing'' ''close''"

text \<open>
  \<^verbatim>\<open>
  def choose_loader(column):
      if column not in USEquityPricing.columns:
          raise Exception('Column not in USEquityPricing')
      return pricing_loader
  \<close>
  \<open>USEquityPricing.columns\<close> (a frozenset of zipline) and the global \<open>pricing_loader\<close>
  are parameters.
\<close>

definition choose_loader :: "bound_column set \<Rightarrow> 'ld \<Rightarrow> bound_column \<Rightarrow> error + 'ld" where
  "choose_loader USEquityPricing_columns pricing_loader column =
     (if column \<notin> USEquityPricing_columns
      then Inl (Exception ''Column not in USEquityPricing'')
      else Inr pricing_loader)"

subsection \<open>Factors and filters\<close>

text \<open>
  The notebook builds its factors and filters as terms of the pipeline library: built-in
  factor classes applied to keyword arguments, \<open>-\<close> and \<open>/\<close> between factors, \<open>>\<close>
  between a factor and a number, \<open>.top(N)\<close> of a factor, \<open>.latest\<close> of a column and \<open>&\<close>
  between filters. The terms are data; the engine computes them later.
\<close>

datatype factor =
    AverageDollarVolume nat
  | SimpleMovingAverage "bound_column list" nat
  | DailyReturns "bound_column list"
  | Latest bound_column
  | Minus factor factor
  | Over factor factor

datatype filter_term =
    Greater factor int
  | Top factor nat
  | Both filter_term filter_term

text \<open>What the notebook adds to a pipeline as a column: a factor or a filter.\<close>

datatype pipeline_term =
    FactorTerm factor
  | FilterTerm filter_term






definition top_20 :: filter_term where
  "top_20 = Top (AverageDollarVolume 30) 20"

definition above_30 :: filter_term where
  "above_30 = Greater (Latest USEquityPricing_close) 30"

definition tradable_asset :: filter_term where
  "tradable_asset = Both top_20 above_30"

subsection \<open>What the terms compute\<close>

text \<open>
  The values are computed by the pipeline engine, which is not part of the repository.
  Its part is a record of functions: the value of each built-in factor for a date and an
  asset, the arithmetic and the comparison on values, and the selection \<open>top\<close> makes
  among the values of one date. The terms are evaluated over any such record.
\<close>

record ('d, 'a, 'v) engine =
  average_dollar_volume :: "nat \<Rightarrow> 'd \<Rightarrow> 'a \<Rightarrow> 'v"
  simple_moving_average :: "bound_column list \<Rightarrow> nat \<Rightarrow> 'd \<Rightarrow> 'a \<Rightarrow> 'v"
  daily_returns :: "bound_column list \<Rightarrow> 'd \<Rightarrow> 'a \<Rightarrow> 'v"
  latest_value :: "bound_column \<Rightarrow> 'd \<Rightarrow> 'a \<Rightarrow> 'v"
  subtract :: "'v \<Rightarrow> 'v \<Rightarrow> 'v"
  quotient :: "'v \<Rightarrow> 'v \<Rightarrow> 'v"
  exceeds :: "'v \<Rightarrow> int \<Rightarrow> bool"
  among_top :: "nat \<Rightarrow> ('a \<Rightarrow> 'v) \<Rightarrow> 'a \<Rightarrow> bool"

fun eval_factor :: "('d, 'a, 'v) engine \<Rightarrow> factor \<Rightarrow> 'd \<Rightarrow> 'a \<Rightarrow> 'v" where
  "eval_factor E (AverageDollarVolume w) d a = average_dollar_volume E w d a"
| "eval_factor E (SimpleMovingAverage inputs w) d a = simple_moving_average E inputs w d a"
| "eval_factor E (DailyReturns inputs) d a = daily_returns E inputs d a"
| "eval_factor E (Latest c) d a = latest_value E c d a"
| "eval_factor E (Minus f g) d a = subtract E (eval_factor E f d a) (eval_factor E g d a)"
| "eval_factor E (Over f g) d a = quotient E (eval_factor E f d a) (eval_factor E g d a)"

fun eval_filter :: "('d, 'a, 'v) engine \<Rightarrow> filter_term \<Rightarrow> 'd \<Rightarrow> 'a \<Rightarrow> bool" where
  "eval_filter E (Greater f c) d a = exceeds E (eval_factor E f d a) c"
| "eval_filter E (Top f n) d a = among_top E n (\<lambda>b. eval_factor E f d b) a"
| "eval_filter E (Both p q) d a = (eval_filter E p d a \<and> eval_filter E q d a)"

text \<open>
  The filter the exercise asks for, in the words of its text: true for the top 20
  securities by average dollar volume in a 30 day window whose latest closing price is
  above 30.
\<close>

definition top_20_and_above_30 :: "('d, 'a, 'v) engine \<Rightarrow> 'd \<Rightarrow> 'a \<Rightarrow> bool" where
  "top_20_and_above_30 E d a =
     (among_top E 20 (\<lambda>b. average_dollar_volume E 30 d b) a \<and>
      exceeds E (latest_value E USEquityPricing_close d a) 30)"

text \<open>
  A small engine to evaluate on: three assets \<open>0, 1, 2\<close>, integer values, the value of
  every built-in factor given by a table, and \<open>top\<close> counting the assets with a larger
  value.
\<close>

definition example_engine :: "(nat, nat, int) engine" where
  "example_engine =
     \<lparr>average_dollar_volume = (\<lambda>w d a. [900, 500, 100] ! a),
      simple_moving_average = (\<lambda>inputs w d a. [40, 20, 10] ! a),
      daily_returns = (\<lambda>inputs d a. 0),
      latest_value = (\<lambda>c d a. [25, 45, 35] ! a),
      subtract = (\<lambda>x y. x - y),
      quotient = (\<lambda>x y. x div y),
      exceeds = (\<lambda>x c. x > c),
      among_top = (\<lambda>n row a. length (filter (\<lambda>b. row b > row a) [0, 1, 2]) < n)\<rparr>"

subsection \<open>The pipeline and its columns\<close>

text \<open>
  A pipeline holds its columns, a dict from column name to term, and its screen.
  \<open>Pipeline(screen = universe)\<close> has no column yet.
\<close>

record pipeline_obj =
  columns :: "string \<rightharpoonup> pipeline_term"
  screen :: "filter_term option"



text \<open>
  The error the notebook recorded is
  \<^verbatim>\<open>KeyError: "Column 'custom factor' already exists."\<close>; the error of this message for
  a name:
\<close>

definition already_exists :: "string \<Rightarrow> error" where
  "already_exists name = KeyError (''Column '' @ [CHR 0x27] @ name @ [CHR 0x27] @ '' already exists.'')"

text \<open>
  Modelled from the spec: \<open>Pipeline.add\<close> belongs to zipline, which is consumed as an
  opaque dependency; \<open>add\<close> of a pipeline term under a name already in use raises a
  duplicate-column error. What the notebook shows of the method is the traceback it
  recorded: the signature \<open>add(self, term, name, overwrite)\<close>, the head of the docstring,
  \<^verbatim>\<open>
          Add a column.

          The results of computing `term` will show up as a column in the
          DataFrame produced by running this pipeline.
  \<close>
  and the lines around the one that raised,
  \<^verbatim>\<open>
                  self.remove(name)
              else:
                  raise KeyError("Column '{}' already exists.".format(name))

          if not isinstance(term, ComputableTerm):
  \<close>
  The notebook calls \<open>add\<close> with a term and a name and nothing else, and so it is
  called here: the recorded call, made this way under the name \<open>custom factor\<close> when
  that name was in use, reached the \<open>raise\<close>. The raise stands before anything that
  follows the check of the name, so the pipeline is left as it was. Under a name not in
  use the term becomes the column of that name: the table \<open>run_pipeline\<close> printed has
  the three columns \<open>custom factor\<close>, \<open>custom filter\<close> and \<open>daily return\<close>, the
  filter added after the two factors. Of the check \<open>isinstance(term, ComputableTerm)\<close>
  the notebook shows the head alone; the factors and the filter it adds passed it in the
  recorded run, and they are the only terms here. The pipeline is mutated in place, so a
  call returns the error it raised, if any, together with the pipeline as the call leaves
  it. The argument \<open>term\<close> is \<open>trm\<close> here.
\<close>

definition add :: "pipeline_obj \<Rightarrow> pipeline_term \<Rightarrow> string \<Rightarrow> error option \<times> pipeline_obj" where
  "add p trm name =
     (if name \<in> dom (columns p)
      then (Some (already_exists name), p)
      else (None, p\<lparr>columns := (columns p)(name \<mapsto> trm)\<rparr>))"



section \<open>The training notebook\<close>

subsection \<open>The tensor library as the loop sees it\<close>

text \<open>
  The training loop is
  \<^verbatim>\<open>
  epochs = 5
  for e in range(epochs):
      running_loss = 0
      for images, labels in trainloader:
          images = images.view(images.shape[0], -1)
          optimizer.zero_grad()
          output = model(images)
          loss = criterion(output, labels)
          loss.backward()
          optimizer.step()
          running_loss += loss.item()
      else:
          print(f"Training loss: {running_loss/len(trainloader)}")
  \<close>
  What the calls compute is the tensor library's business and enters as a record of
  functions: the forward pass of the model for given parameters, the loss, the gradient
  that \<open>backward\<close> derives from a loss, the zero gradient and the accumulation of one
  gradient onto another, the update of the parameters by the optimizer, and the
  arithmetic on the printed loss. The calls are taken to return, as they do on batches
  of the shape the model expects.
\<close>

record ('p, 'x, 'y, 'o, 'l, 'g, 'r) torch =
  view_flat :: "'x \<Rightarrow> 'x"
  model_forward :: "'p \<Rightarrow> 'x \<Rightarrow> 'o"
  criterion :: "'o \<Rightarrow> 'y \<Rightarrow> 'l"
  gradient :: "'l \<Rightarrow> 'g"
  zero_gradient :: "'g"
  accumulate :: "'g \<Rightarrow> 'g \<Rightarrow> 'g"
  sgd_update :: "'p \<Rightarrow> 'g \<Rightarrow> 'p"
  item :: "'l \<Rightarrow> 'r"
  zero_loss :: "'r"
  plus_loss :: "'r \<Rightarrow> 'r \<Rightarrow> 'r"
  mean_loss :: "'r \<Rightarrow> nat \<Rightarrow> 'r"

subsection \<open>State and calls\<close>

text \<open>
  The calls into the library are recorded in the order they are made: \<open>Forward\<close>
  with the images given and the output returned, \<open>Criterion\<close> with the output and the
  labels given and the loss returned, \<open>Backward\<close> with the loss it is called on,
  \<open>Step\<close> with the gradient buffer it reads.
\<close>

datatype ('x, 'y, 'o, 'l, 'g) call =
    ZeroGrad
  | Forward 'x 'o
  | Criterion 'o 'y 'l
  | Backward 'l
  | Step "'g option"

fun is_step :: "('x, 'y, 'o, 'l, 'g) call \<Rightarrow> bool" where
  "is_step (Step _) = True"
| "is_step _ = False"

text \<open>
  The state the loop works on: the parameters of the model, the gradient buffer of the
  parameters (\<open>None\<close> until the first \<open>backward\<close>), the running loss, the lines
  printed, and the calls made so far.
\<close>

record ('p, 'x, 'y, 'o, 'l, 'g, 'r) training =
  parameters :: 'p
  grad :: "'g option"
  running_loss :: 'r
  printed :: "'r list"
  calls :: "('x, 'y, 'o, 'l, 'g) call list"

text \<open>\<open>optimizer.zero_grad()\<close> zeroes a gradient buffer that exists.\<close>

definition zero_grad ::
  "('p, 'x, 'y, 'o, 'l, 'g, 'r) torch \<Rightarrow> ('p, 'x, 'y, 'o, 'l, 'g, 'r) training \<Rightarrow> ('p, 'x, 'y, 'o, 'l, 'g, 'r) training" where
  "zero_grad T st =
     st\<lparr>grad := map_option (\<lambda>_. zero_gradient T) (grad st), calls := calls st @ [ZeroGrad]\<rparr>"

text \<open>\<open>model(images)\<close> and \<open>criterion(output, labels)\<close>.\<close>

definition forward ::
  "('p, 'x, 'y, 'o, 'l, 'g, 'r) torch \<Rightarrow> 'x \<Rightarrow> ('p, 'x, 'y, 'o, 'l, 'g, 'r) training
     \<Rightarrow> 'o \<times> ('p, 'x, 'y, 'o, 'l, 'g, 'r) training" where
  "forward T images st =
     (let out = model_forward T (parameters st) images
      in (out, st\<lparr>calls := calls st @ [Forward images out]\<rparr>))"

definition compute_loss ::
  "('p, 'x, 'y, 'o, 'l, 'g, 'r) torch \<Rightarrow> 'o \<Rightarrow> 'y \<Rightarrow> ('p, 'x, 'y, 'o, 'l, 'g, 'r) training
     \<Rightarrow> 'l \<times> ('p, 'x, 'y, 'o, 'l, 'g, 'r) training" where
  "compute_loss T out labels st =
     (let loss = criterion T out labels
      in (loss, st\<lparr>calls := calls st @ [Criterion out labels loss]\<rparr>))"

text \<open>
  \<open>loss.backward()\<close> adds the gradient of the loss onto the buffer: "when you do multiple
  backwards passes with the same parameters, the gradients are accumulated". An empty
  buffer is set to the gradient.
\<close>

definition backward ::
  "('p, 'x, 'y, 'o, 'l, 'g, 'r) torch \<Rightarrow> 'l \<Rightarrow> ('p, 'x, 'y, 'o, 'l, 'g, 'r) training \<Rightarrow> ('p, 'x, 'y, 'o, 'l, 'g, 'r) training" where
  "backward T loss st =
     st\<lparr>grad := Some (case grad st of
                        None \<Rightarrow> gradient T loss
                      | Some g \<Rightarrow> accumulate T g (gradient T loss)),
        calls := calls st @ [Backward loss]\<rparr>"

text \<open>\<open>optimizer.step()\<close> updates the parameters from the gradient buffer; parameters
  without a gradient are left alone.\<close>

definition optimizer_step ::
  "('p, 'x, 'y, 'o, 'l, 'g, 'r) torch \<Rightarrow> ('p, 'x, 'y, 'o, 'l, 'g, 'r) training \<Rightarrow> ('p, 'x, 'y, 'o, 'l, 'g, 'r) training" where
  "optimizer_step T st =
     st\<lparr>parameters := (case grad st of
                          None \<Rightarrow> parameters st
                        | Some g \<Rightarrow> sgd_update T (parameters st) g),
        calls := calls st @ [Step (grad st)]\<rparr>"

subsection \<open>The loop\<close>

text \<open>The body of the inner loop, for one batch.\<close>

definition training_pass ::
  "('p, 'x, 'y, 'o, 'l, 'g, 'r) torch \<Rightarrow> 'x \<times> 'y \<Rightarrow> ('p, 'x, 'y, 'o, 'l, 'g, 'r) training
     \<Rightarrow> ('p, 'x, 'y, 'o, 'l, 'g, 'r) training" where
  "training_pass T batch st =
     (let (images, labels) = batch;
          images = view_flat T images;
          st = zero_grad T st;
          (out, st) = forward T images st;
          (loss, st) = compute_loss T out labels st;
          st = backward T loss st;
          st = optimizer_step T st
      in st\<lparr>running_loss := plus_loss T (running_loss st) (item T loss)\<rparr>)"

text \<open>
  One epoch: the inner loop over the batches of the loader, then the \<open>else\<close> branch of
  the \<open>for\<close>, which prints the mean loss. Its division by \<open>len(trainloader)\<close> raises
  \<open>ZeroDivisionError\<close> for a loader without batches. A run that raises keeps the state
  it has reached.
\<close>

definition epoch ::
  "('p, 'x, 'y, 'o, 'l, 'g, 'r) torch \<Rightarrow> ('x \<times> 'y) list \<Rightarrow> ('p, 'x, 'y, 'o, 'l, 'g, 'r) training
     \<Rightarrow> error option \<times> ('p, 'x, 'y, 'o, 'l, 'g, 'r) training" where
  "epoch T trainloader st =
     (let st = fold (training_pass T) trainloader (st\<lparr>running_loss := zero_loss T\<rparr>)
      in if length trainloader = 0 then (Some ZeroDivisionError, st)
         else (None, st\<lparr>printed := printed st @ [mean_loss T (running_loss st) (length trainloader)]\<rparr>))"

text \<open>
  The outer loop over \<open>range(epochs)\<close>. The loader shuffles, so the batches it yields
  depend on the epoch.
\<close>

fun epochs_loop ::
  "('p, 'x, 'y, 'o, 'l, 'g, 'r) torch \<Rightarrow> (nat \<Rightarrow> ('x \<times> 'y) list) \<Rightarrow> nat list
     \<Rightarrow> ('p, 'x, 'y, 'o, 'l, 'g, 'r) training \<Rightarrow> error option \<times> ('p, 'x, 'y, 'o, 'l, 'g, 'r) training" where
  "epochs_loop T trainloader [] st = (None, st)"
| "epochs_loop T trainloader (e # es) st =
     (case epoch T (trainloader e) st of
        (Some err, st') \<Rightarrow> (Some err, st')
      | (None, st') \<Rightarrow> epochs_loop T trainloader es st')"

definition epochs :: nat where
  "epochs = 5"

text \<open>The cell: a fresh model with parameters \<open>p0\<close> and no gradient yet, then the loop.\<close>

definition train ::
  "('p, 'x, 'y, 'o, 'l, 'g, 'r) torch \<Rightarrow> (nat \<Rightarrow> ('x \<times> 'y) list) \<Rightarrow> 'p
     \<Rightarrow> error option \<times> ('p, 'x, 'y, 'o, 'l, 'g, 'r) training" where
  "train T trainloader p0 =
     epochs_loop T trainloader [0..<epochs]
       \<lparr>parameters = p0, grad = None, running_loss = zero_loss T, printed = [], calls = []\<rparr>"

text \<open>
  The batches a run processes, in the order it processes them: those of every epoch up
  to the first whose loader yields none, where the print raises.
\<close>

definition processed :: "(nat \<Rightarrow> 'b list) \<Rightarrow> nat list \<Rightarrow> 'b list" where
  "processed trainloader es = concat (map trainloader (takeWhile (\<lambda>e. trainloader e \<noteq> []) es))"

definition all_batches :: "(nat \<Rightarrow> 'b list) \<Rightarrow> 'b list" where
  "all_batches trainloader = processed trainloader [0..<epochs]"

text \<open>
  The calls of one pass over batch \<open>b\<close>, started with parameters \<open>p\<close>; \<open>first\<close> says
  that no gradient buffer exists yet.
\<close>

definition pass_calls ::
  "('p, 'x, 'y, 'o, 'l, 'g, 'r) torch \<Rightarrow> 'x \<times> 'y \<Rightarrow> 'p \<Rightarrow> bool \<Rightarrow> ('x, 'y, 'o, 'l, 'g) call list" where
  "pass_calls T b p first =
     (let images = view_flat T (fst b);
          out = model_forward T p images;
          loss = criterion T out (snd b)
      in [ZeroGrad, Forward images out, Criterion out (snd b) loss, Backward loss,
          Step (Some (if first then gradient T loss
                      else accumulate T (zero_gradient T) (gradient T loss)))])"

text \<open>
  A small library to evaluate on: every value an integer, a linear model, the loss the
  difference to the label, accumulation by addition.
\<close>

definition example_torch :: "(int, int, int, int, int, int, int) torch" where
  "example_torch =
     \<lparr>view_flat = (\<lambda>x. x),
      model_forward = (\<lambda>p x. p * x),
      criterion = (\<lambda>out y. out - y),
      gradient = (\<lambda>l. 2 * l),
      zero_gradient = 0,
      accumulate = (\<lambda>g h. g + h),
      sgd_update = (\<lambda>p g. p - g),
      item = (\<lambda>l. l),
      zero_loss = 0,
      plus_loss = (\<lambda>r l. r + l),
      mean_loss = (\<lambda>r n. r div int n)\<rparr>"

definition example_loader :: "nat \<Rightarrow> (int \<times> int) list" where
  "example_loader e = [(1, 2), (3, 4)]"

section \<open>The checkpoint notebook\<close>

subsection \<open>Tensors, layers and networks\<close>

text \<open>
  A tensor has a shape and its elements. The elements are floating-point numbers in the
  notebook; nothing here computes with them, so their type is left open.
\<close>

record 'a tensor =
  shape :: "nat list"
  elements :: "'a list"

text \<open>A fully connected layer, \<open>Linear(in_features=..., out_features=..., bias=True)\<close>.\<close>

record 'a linear =
  in_features :: nat
  out_features :: nat
  weight :: "'a tensor"
  bias :: "'a tensor"

text \<open>
  A network, as the notebook prints it: the module list \<open>hidden_layers\<close> and the layer
  \<open>output\<close>, which is \<open>output_layer\<close> here (\<open>output\<close> is a keyword of Isabelle).
\<close>

record 'a network =
  hidden_layers :: "'a linear list"
  output_layer :: "'a linear"

text \<open>
  \<open>nn.Linear(i, o)\<close> makes a weight of shape \<open>[o, i]\<close> and a bias of shape \<open>[o]\<close>, as
  the recorded error message shows (\<open>torch.Size([512, 784])\<close> for the layer from 784 to
  512). Their initial elements are drawn at random: \<open>init\<close> gives the elements drawn
  for the parameter of a given name and shape.
\<close>

definition Linear :: "(string \<Rightarrow> nat list \<Rightarrow> 'a list) \<Rightarrow> string \<Rightarrow> nat \<Rightarrow> nat \<Rightarrow> 'a linear" where
  "Linear init name n_in n_out =
     \<lparr>in_features = n_in, out_features = n_out,
      weight = \<lparr>shape = [n_out, n_in], elements = init (name @ ''.weight'') [n_out, n_in]\<rparr>,
      bias = \<lparr>shape = [n_out], elements = init (name @ ''.bias'') [n_out]\<rparr>\<rparr>"

text \<open>Decimal digits of an index, for the names of the parameters.\<close>

definition digit :: "nat \<Rightarrow> char" where
  "digit n = ''0123456789'' ! n"

function string_of_nat :: "nat \<Rightarrow> string" where
  "string_of_nat n =
     (if n < 10 then [digit n] else string_of_nat (n div 10) @ [digit (n mod 10)])"
  by pat_completeness auto
termination
  by (relation "measure id") auto

declare string_of_nat.simps [simp del]

definition hidden_name :: "nat \<Rightarrow> string" where
  "hidden_name k = ''hidden_layers.'' @ string_of_nat k"

text \<open>
  Modelled from the spec: \<open>fc_model.Network\<close>, the class of the models, is imported by
  the notebook and its file is not among the sources. A network is built from an input
  size, an output size and the list of per-layer hidden sizes. Its layers are those the
  notebook prints for \<open>Network(784, 10, [512, 256, 128])\<close>: hidden layers from 784 to
  512, from 512 to 256 and from 256 to 128, and an output layer from 128 to 10 (and a
  dropout module, which has no parameter and no entry in a state dict). The first hidden
  size is read with \<open>hidden_layers[0]\<close>, which raises \<open>IndexError\<close> on an empty list.
\<close>

definition Network ::
  "(string \<Rightarrow> nat list \<Rightarrow> 'a list) \<Rightarrow> nat \<Rightarrow> nat \<Rightarrow> nat list \<Rightarrow> error + 'a network" where
  "Network init input_size output_size hidden =
     (case hidden of
        [] \<Rightarrow> Inl IndexError
      | h # _ \<Rightarrow>
          Inr \<lparr>hidden_layers =
                 map (\<lambda>(k, h1, h2). Linear init (hidden_name k) h1 h2)
                   (enumerate 0 ((input_size, h) # zip (butlast hidden) (tl hidden))),
               output_layer = Linear init ''output'' (last hidden) output_size\<rparr>)"

subsection \<open>State dicts\<close>

text \<open>
  \<open>model.state_dict()\<close> is an ordered dict from parameter name to tensor; for the model
  above the notebook prints the keys \<open>hidden_layers.0.weight\<close>, \<open>hidden_layers.0.bias\<close>,
  ..., \<open>output.weight\<close>, \<open>output.bias\<close>.
\<close>

type_synonym 'a state_dict = "(string \<times> 'a tensor) list"

definition linear_state :: "string \<Rightarrow> 'a linear \<Rightarrow> 'a state_dict" where
  "linear_state name l = [(name @ ''.weight'', weight l), (name @ ''.bias'', bias l)]"

definition hidden_state :: "nat \<Rightarrow> 'a linear list \<Rightarrow> 'a state_dict" where
  "hidden_state k ls = concat (map (\<lambda>(j, l). linear_state (hidden_name j) l) (enumerate k ls))"

definition state_dict :: "'a network \<Rightarrow> 'a state_dict" where
  "state_dict model = hidden_state 0 (hidden_layers model) @ linear_state ''output'' (output_layer model)"

text \<open>The keys of the hidden layers \<open>k\<close> to \<open>k + n - 1\<close>, in the order of the state dict.\<close>

definition hidden_keys :: "nat \<Rightarrow> nat \<Rightarrow> string list" where
  "hidden_keys k n = concat (map (\<lambda>j. [hidden_name j @ ''.weight'', hidden_name j @ ''.bias'']) [k..<k + n])"

text \<open>
  Modelled from the spec: \<open>load_state_dict\<close> belongs to the tensor library. Loading an
  incompatible checkpoint into a differently-sized model raises a shape-mismatch error.
  The error the notebook recorded names, in the order of the model's parameters, every
  parameter whose shape in the checkpoint differs from its shape in the model
  (\<open>size mismatch for hidden_layers.0.weight: copying a param with shape
  torch.Size([512, 784]) from checkpoint, the shape in current model is
  torch.Size([400, 784])\<close>); \<open>output.bias\<close>, of shape \<open>[10]\<close> on both sides, is not
  among them. A parameter of matching shape is copied, one of another shape is left as it
  is; names of the model missing in the state dict and names of the state dict unknown to
  the model are errors as well. The model is changed in place, so the call returns the
  error it raised, if any, together with the model as the call leaves it.
\<close>

definition load_param :: "'a state_dict \<Rightarrow> string \<Rightarrow> 'a tensor \<Rightarrow> 'a tensor \<times> load_problem list" where
  "load_param sd key param =
     (case map_of sd key of
        None \<Rightarrow> (param, [])
      | Some input_param \<Rightarrow>
          if shape input_param \<noteq> shape param
          then (param, [SizeMismatch key (shape input_param) (shape param)])
          else (input_param, []))"

definition load_linear :: "'a state_dict \<Rightarrow> string \<Rightarrow> 'a linear \<Rightarrow> 'a linear \<times> load_problem list" where
  "load_linear sd name l =
     (let (w, pw) = load_param sd (name @ ''.weight'') (weight l);
          (b, pb) = load_param sd (name @ ''.bias'') (bias l)
      in (l\<lparr>weight := w, bias := b\<rparr>, pw @ pb))"

definition load_state_dict :: "'a network \<Rightarrow> 'a state_dict \<Rightarrow> error option \<times> 'a network" where
  "load_state_dict model sd =
     (let hidden = map (\<lambda>(k, l). load_linear sd (hidden_name k) l)
                     (enumerate 0 (hidden_layers model));
          (out, pout) = load_linear sd ''output'' (output_layer model);
          own_keys = map fst (state_dict model);
          missing = filter (\<lambda>k. map_of sd k = None) own_keys;
          unexpected = filter (\<lambda>k. k \<notin> set own_keys) (map fst sd);
          problems = (if missing = [] then [] else [MissingKeys missing])
                   @ (if unexpected = [] then [] else [UnexpectedKeys unexpected])
                   @ concat (map snd hidden) @ pout
      in (if problems = [] then None else Some (RuntimeError problems),
          \<lparr>hidden_layers = map fst hidden, output_layer = out\<rparr>))"

subsection \<open>Saved files\<close>

text \<open>
  The values a saved dict holds in this notebook: an integer, a list of integers, a
  tensor, a state dict. A file holds a dict; \<open>torch.save\<close> writes it and \<open>torch.load\<close>
  reads it back.
\<close>

datatype 'a pyvalue =
    IntValue nat
  | ListValue "nat list"
  | TensorValue "'a tensor"
  | StateDictValue "'a state_dict"

type_synonym 'a pydict = "(string \<times> 'a pyvalue) list"

definition torch_save :: "(string \<rightharpoonup> 'a pydict) \<Rightarrow> 'a pydict \<Rightarrow> string \<Rightarrow> (string \<rightharpoonup> 'a pydict)" where
  "torch_save files obj path = files(path \<mapsto> obj)"

definition torch_load :: "(string \<rightharpoonup> 'a pydict) \<Rightarrow> string \<Rightarrow> error + 'a pydict" where
  "torch_load files path =
     (case files path of None \<Rightarrow> Inl (FileNotFoundError path) | Some obj \<Rightarrow> Inr obj)"

text \<open>\<open>d[key]\<close> on a dict.\<close>

definition getitem :: "'a pydict \<Rightarrow> string \<Rightarrow> error + 'a pyvalue" where
  "getitem d key = (case map_of d key of None \<Rightarrow> Inl (KeyError key) | Some v \<Rightarrow> Inr v)"

text \<open>
  The calls of \<open>load_checkpoint\<close> on the values it has read. The notebook's checkpoints
  hold two integers, a list of integers and a state dict; on values of another kind the
  library raises a type or attribute error.
\<close>

fun Network_of ::
  "(string \<Rightarrow> nat list \<Rightarrow> 'a list) \<Rightarrow> 'a pyvalue \<Rightarrow> 'a pyvalue \<Rightarrow> 'a pyvalue \<Rightarrow> error + 'a network" where
  "Network_of init (IntValue n_in) (IntValue n_out) (ListValue hs) = Network init n_in n_out hs"
| "Network_of init _ _ _ = Inl (TypeError ''Network: sizes expected'')"

fun load_state_dict_of :: "'a network \<Rightarrow> 'a pyvalue \<Rightarrow> error option \<times> 'a network" where
  "load_state_dict_of model (StateDictValue sd) = load_state_dict model sd"
| "load_state_dict_of model _ = (Some (AttributeError ''load_state_dict: state dict expected''), model)"

subsection \<open>Building and loading a checkpoint\<close>

text \<open>
  \<^verbatim>\<open>
  checkpoint = {'input_size': 784,
                'output_size': 10,
                'hidden_layers': [each.out_features for each in model.hidden_layers],
                'state_dict': model.state_dict()}

  torch.save(checkpoint, 'checkpoint.pth')
  \<close>
\<close>

definition checkpoint :: "'a network \<Rightarrow> 'a pydict" where
  "checkpoint model =
     [(''input_size'', IntValue 784),
      (''output_size'', IntValue 10),
      (''hidden_layers'', ListValue (map out_features (hidden_layers model))),
      (''state_dict'', StateDictValue (state_dict model))]"

text \<open>
  \<^verbatim>\<open>
  def load_checkpoint(filepath):
      checkpoint = torch.load(filepath)
      model = fc_model.Network(checkpoint['input_size'],
                               checkpoint['output_size'],
                               checkpoint['hidden_layers'])
      model.load_state_dict(checkpoint['state_dict'])

      return model
  \<close>
  The files and the random initialisation of the new network are parameters; the local
  variable \<open>checkpoint\<close> is \<open>ckpt\<close> here.
\<close>

definition load_checkpoint ::
  "(string \<Rightarrow> nat list \<Rightarrow> 'a list) \<Rightarrow> (string \<rightharpoonup> 'a pydict) \<Rightarrow> string \<Rightarrow> error + 'a network" where
  "load_checkpoint init files filepath =
     (case torch_load files filepath of
        Inl e \<Rightarrow> Inl e
      | Inr ckpt \<Rightarrow>
     (case getitem ckpt ''input_size'' of
        Inl e \<Rightarrow> Inl e
      | Inr input_size \<Rightarrow>
     (case getitem ckpt ''output_size'' of
        Inl e \<Rightarrow> Inl e
      | Inr output_size \<Rightarrow>
     (case getitem ckpt ''hidden_layers'' of
        Inl e \<Rightarrow> Inl e
      | Inr hidden \<Rightarrow>
     (case Network_of init input_size output_size hidden of
        Inl e \<Rightarrow> Inl e
      | Inr model \<Rightarrow>
     (case getitem ckpt ''state_dict'' of
        Inl e \<Rightarrow> Inl e
      | Inr sd \<Rightarrow>
     (case load_state_dict_of model sd of
        (Some e, _) \<Rightarrow> Inl e
      | (None, model') \<Rightarrow> Inr model')))))))"

subsection \<open>Trained models\<close>

text \<open>
  Training changes the elements of the parameters and nothing else. A model of
  architecture \<open>(input_size, output_size, hidden)\<close>, trained or not, is a network whose
  layers have the sizes and whose parameters have the shapes of
  \<open>Network(input_size, output_size, hidden)\<close>.
\<close>

definition layout_linear :: "'a linear \<Rightarrow> nat \<times> nat \<times> nat list \<times> nat list" where
  "layout_linear l = (in_features l, out_features l, shape (weight l), shape (bias l))"

definition layout ::
  "'a network \<Rightarrow> (nat \<times> nat \<times> nat list \<times> nat list) list \<times> (nat \<times> nat \<times> nat list \<times> nat list)" where
  "layout model = (map layout_linear (hidden_layers model), layout_linear (output_layer model))"

definition no_elements :: "string \<Rightarrow> nat list \<Rightarrow> 'a list" where
  "no_elements name sh = []"

definition is_Network :: "nat \<Rightarrow> nat \<Rightarrow> nat list \<Rightarrow> 'a network \<Rightarrow> bool" where
  "is_Network input_size output_size hidden model =
     (case Network (no_elements :: string \<Rightarrow> nat list \<Rightarrow> 'a list) input_size output_size hidden of
        Inl _ \<Rightarrow> False
      | Inr fresh \<Rightarrow> layout model = layout fresh)"

text \<open>
  The two models the notebook builds, \<open>fc_model.Network(784, 10, [512, 256, 128])\<close> and
  \<open>fc_model.Network(784, 10, [400, 200, 100])\<close>.
\<close>

definition model_512 :: "(string \<Rightarrow> nat list \<Rightarrow> 'a list) \<Rightarrow> error + 'a network" where
  "model_512 init = Network init 784 10 [512, 256, 128]"

definition model_400 :: "(string \<Rightarrow> nat list \<Rightarrow> 'a list) \<Rightarrow> error + 'a network" where
  "model_400 init = Network init 784 10 [400, 200, 100]"

text \<open>Random initialisations to evaluate on.\<close>

definition zeros :: "string \<Rightarrow> nat list \<Rightarrow> int list" where
  "zeros name sh = replicate (prod_list sh) 0"

definition ones :: "string \<Rightarrow> nat list \<Rightarrow> int list" where
  "ones name sh = replicate (prod_list sh) 1"

section \<open>Properties of the zipline notebook\<close>

subsection \<open>The loader chosen for a column\<close>

text \<open>
  C9. For every column, \<open>choose_loader\<close> returns the pricing loader exactly when the
  column is in \<open>USEquityPricing.columns\<close> and raises its exception exactly when it is
  not; whatever loader it returns is the pricing loader.
\<close>

theorem choose_loader_pricing_iff:
  "(choose_loader cols pl c = Inr pl \<longleftrightarrow> c \<in> cols) \<and>
   (choose_loader cols pl c = Inl (Exception ''Column not in USEquityPricing'') \<longleftrightarrow> c \<notin> cols) \<and>
   (\<forall>l. choose_loader cols pl c = Inr l \<longrightarrow> l = pl) \<and>
   (\<forall>e. choose_loader cols pl c = Inl e \<longrightarrow> c \<notin> cols)"
  by (simp add: choose_loader_def)

theorem choose_loader_pricing_iff_witness:
  "choose_loader {USEquityPricing_close} (7::nat) USEquityPricing_close = Inr 7 \<and>
   choose_loader {USEquityPricing_close} (7::nat) (BoundColumn ''Fundamentals'' ''pe'')
     = Inl (Exception ''Column not in USEquityPricing'')"
  using choose_loader_pricing_iff [of "{USEquityPricing_close}" "7::nat" USEquityPricing_close]
    choose_loader_pricing_iff [of "{USEquityPricing_close}" "7::nat" "BoundColumn ''Fundamentals'' ''pe''"]
  by (simp add: USEquityPricing_close_def)

subsection \<open>The custom filter\<close>

lemma eval_factor_AverageDollarVolume:
  "eval_factor E (AverageDollarVolume w) d = average_dollar_volume E w d"
  by (rule ext) simp

text \<open>
  C10. For every asset and date, \<open>tradable_asset\<close> holds exactly when the asset is among
  the top 20 by 30-day average dollar volume and its latest closing price exceeds 30: the
  filter is the conjunction of \<open>top_20\<close> and \<open>above_30\<close>, whatever the engine computes
  for the built-in factors.
\<close>

theorem tradable_asset_is_conjunction:
  "tradable_asset = Both top_20 above_30 \<and>
   (eval_filter E tradable_asset d a \<longleftrightarrow> eval_filter E top_20 d a \<and> eval_filter E above_30 d a) \<and>
   (eval_filter E tradable_asset d a \<longleftrightarrow> top_20_and_above_30 E d a)"
  by (simp add: tradable_asset_def top_20_def above_30_def top_20_and_above_30_def
      eval_factor_AverageDollarVolume)

theorem tradable_asset_is_conjunction_witness:
  "eval_filter example_engine tradable_asset 0 1 \<and>
   top_20_and_above_30 example_engine 0 1 \<and>
   \<not> eval_filter example_engine tradable_asset 0 0 \<and>
   \<not> top_20_and_above_30 example_engine 0 0"
proof -
  have yes: "top_20_and_above_30 example_engine 0 1"
    by code_simp
  have no: "\<not> top_20_and_above_30 example_engine 0 0"
    by code_simp
  show ?thesis
    using yes no tradable_asset_is_conjunction [of example_engine 0 1]
      tradable_asset_is_conjunction [of example_engine 0 0]
    by blast
qed

subsection \<open>Adding columns\<close>







section \<open>Properties of the training loop\<close>

subsection \<open>The calls of a run\<close>

lemma training_pass_calls:
  "calls (training_pass T b st) = calls st @ pass_calls T b (parameters st) (grad st = None)"
  by (cases b; cases "grad st")
    (simp_all add: training_pass_def zero_grad_def forward_def compute_loss_def backward_def
      optimizer_step_def pass_calls_def Let_def)

lemma training_pass_grad: "grad (training_pass T b st) \<noteq> None"
  by (cases b)
    (simp add: training_pass_def zero_grad_def forward_def compute_loss_def backward_def
      optimizer_step_def Let_def)

lemma fold_training_pass_calls:
  "\<exists>qs. length qs = length bs \<and>
     calls (fold (training_pass T) bs st)
       = calls st @ concat (map (\<lambda>(b, p, f). pass_calls T b p f) (zip bs qs))"
proof (induction bs arbitrary: st)
  case Nil
  then show ?case by simp
next
  case (Cons b bs)
  from Cons.IH [of "training_pass T b st"] obtain qs where
    qs: "length qs = length bs"
    "calls (fold (training_pass T) bs (training_pass T b st))
       = calls (training_pass T b st) @ concat (map (\<lambda>(b, p, f). pass_calls T b p f) (zip bs qs))"
    by blast
  let ?qs = "(parameters st, grad st = None) # qs"
  have "length ?qs = length (b # bs)"
    using qs(1) by simp
  moreover have "calls (fold (training_pass T) (b # bs) st)
       = calls st @ concat (map (\<lambda>(b, p, f). pass_calls T b p f) (zip (b # bs) ?qs))"
    using qs(2) by (simp add: training_pass_calls)
  ultimately show ?case by blast
qed

lemma epoch_calls:
  "\<exists>qs. length qs = length bs \<and>
     calls (snd (epoch T bs st))
       = calls st @ concat (map (\<lambda>(b, p, f). pass_calls T b p f) (zip bs qs))"
proof -
  from fold_training_pass_calls [of bs T "st\<lparr>running_loss := zero_loss T\<rparr>"]
  show ?thesis
    by (auto simp add: epoch_def Let_def)
qed

lemma epoch_error: "fst (epoch T bs st) = (if bs = [] then Some ZeroDivisionError else None)"
  by (simp add: epoch_def Let_def)

lemma processed_Nil [simp]: "processed trainloader [] = []"
  by (simp add: processed_def)

lemma processed_Cons:
  "processed trainloader (e # es)
     = (if trainloader e = [] then [] else trainloader e @ processed trainloader es)"
  by (simp add: processed_def)

lemma epochs_loop_calls:
  "\<exists>qs. length qs = length (processed trainloader es) \<and>
     (fst (epochs_loop T trainloader es st) = None \<longleftrightarrow> (\<forall>e \<in> set es. trainloader e \<noteq> [])) \<and>
     calls (snd (epochs_loop T trainloader es st))
       = calls st @ concat (map (\<lambda>(b, p, f). pass_calls T b p f)
                              (zip (processed trainloader es) qs))"
proof (induction es arbitrary: st)
  case Nil
  then show ?case by simp
next
  case (Cons e es)
  obtain err st' where ep: "epoch T (trainloader e) st = (err, st')"
    by (cases "epoch T (trainloader e) st")
  show ?case
  proof (cases "trainloader e = []")
    case True
    with ep have "err = Some ZeroDivisionError" and c: "calls st' = calls st"
      by (auto simp add: epoch_def Let_def)
    with ep have run: "epochs_loop T trainloader (e # es) st = (Some ZeroDivisionError, st')"
      by simp
    from True have none: "processed trainloader (e # es) = []"
      by (simp add: processed_Cons)
    show ?thesis
    proof (rule exI [of _ "[]"], intro conjI)
      show "length [] = length (processed trainloader (e # es))"
        by (simp add: none)
      have "fst (epochs_loop T trainloader (e # es) st) \<noteq> None"
        by (simp add: run del: epochs_loop.simps)
      moreover have "\<not> (\<forall>x \<in> set (e # es). trainloader x \<noteq> [])"
        using True by (metis list.set_intros(1))
      ultimately show "fst (epochs_loop T trainloader (e # es) st) = None
          \<longleftrightarrow> (\<forall>e \<in> set (e # es). trainloader e \<noteq> [])"
        by blast
      show "calls (snd (epochs_loop T trainloader (e # es) st))
          = calls st @ concat (map (\<lambda>(b, p, f). pass_calls T b p f)
                                 (zip (processed trainloader (e # es)) []))"
        by (simp add: run c del: epochs_loop.simps)
    qed
  next
    case False
    with ep epoch_error [of T "trainloader e" st] have err: "err = None" by simp
    from epoch_calls [of "trainloader e" T st] ep obtain q1 where
      q1: "length q1 = length (trainloader e)"
      "calls st' = calls st @ concat (map (\<lambda>(b, p, f). pass_calls T b p f) (zip (trainloader e) q1))"
      by auto
    from Cons.IH [of st'] obtain q2 where
      all: "length q2 = length (processed trainloader es) \<and>
      (fst (epochs_loop T trainloader es st') = None \<longleftrightarrow> (\<forall>e \<in> set es. trainloader e \<noteq> [])) \<and>
      calls (snd (epochs_loop T trainloader es st'))
         = calls st' @ concat (map (\<lambda>(b, p, f). pass_calls T b p f)
                                (zip (processed trainloader es) q2))"
      by (elim exE)
    note q2 = all [THEN conjunct1] all [THEN conjunct2, THEN conjunct1]
      all [THEN conjunct2, THEN conjunct2]
    have run: "epochs_loop T trainloader (e # es) st = epochs_loop T trainloader es st'"
      using ep err by simp
    have "length (q1 @ q2) = length (processed trainloader (e # es))"
      using q1(1) q2(1) False by (simp add: processed_Cons)
    moreover have "fst (epochs_loop T trainloader (e # es) st) = None
         \<longleftrightarrow> (\<forall>e \<in> set (e # es). trainloader e \<noteq> [])"
      using q2(2) False by (simp add: run del: epochs_loop.simps)
    moreover have "calls (snd (epochs_loop T trainloader (e # es) st))
         = calls st @ concat (map (\<lambda>(b, p, f). pass_calls T b p f)
                                (zip (processed trainloader (e # es)) (q1 @ q2)))"
      using q1 q2(3) False by (simp add: run processed_Cons del: epochs_loop.simps)
    ultimately show ?thesis
      by (intro exI [of _ "q1 @ q2"] conjI)
  qed
qed

text \<open>A list made of blocks of one length, read by block and offset.\<close>

lemma concat_blocks_take:
  "(\<And>z. length (F z) = n) \<Longrightarrow> k < length zs \<Longrightarrow> j \<le> n \<Longrightarrow>
   take (n * k + j) (concat (map F zs)) = concat (map F (take k zs)) @ take j (F (zs ! k))"
proof (induction zs arbitrary: k)
  case Nil
  then show ?case by simp
next
  case (Cons z zs)
  show ?case
  proof (cases k)
    case 0
    with Cons.prems show ?thesis by simp
  next
    case (Suc k')
    with Cons.prems have "k' < length zs" by simp
    from Cons.IH [OF Cons.prems(1) this Cons.prems(3)]
    have "take (n * k' + j) (concat (map F zs))
            = concat (map F (take k' zs)) @ take j (F (zs ! k'))" .
    moreover have "n * k + j = length (F z) + (n * k' + j)"
      using Suc Cons.prems(1) [of z] by simp
    ultimately show ?thesis
      using Suc by simp
  qed
qed

lemma concat_blocks_nth:
  "(\<And>z. length (F z) = n) \<Longrightarrow> k < length zs \<Longrightarrow> j < n \<Longrightarrow>
   concat (map F zs) ! (n * k + j) = F (zs ! k) ! j"
proof (induction zs arbitrary: k)
  case Nil
  then show ?case by simp
next
  case (Cons z zs)
  show ?case
  proof (cases k)
    case 0
    with Cons.prems show ?thesis by (simp add: nth_append)
  next
    case (Suc k')
    with Cons.prems have "k' < length zs" by simp
    from Cons.IH [OF Cons.prems(1) this Cons.prems(3)]
    have "concat (map F zs) ! (n * k' + j) = F (zs ! k') ! j" .
    moreover have "n * k + j = length (F z) + (n * k' + j)"
      using Suc Cons.prems(1) [of z] by simp
    ultimately show ?thesis
      using Suc by (simp add: nth_append del: mult_Suc_right)
  qed
qed

lemma concat_blocks_length:
  "(\<And>z. length (F z) = n) \<Longrightarrow> length (concat (map F zs)) = n * length zs"
  by (induction zs) simp_all

lemma length_pass_calls: "length (pass_calls T b p f) = 5"
  by (simp add: pass_calls_def Let_def)

lemma steps_of_passes:
  "length (filter is_step (concat (map (\<lambda>(b, p, f). pass_calls T b p f) zs))) = length zs"
  by (induction zs) (auto simp add: pass_calls_def Let_def)

lemma train_calls_error:
  "\<exists>qs. length qs = length (all_batches trainloader) \<and>
     (fst (train T trainloader p0) = None \<longleftrightarrow> (\<forall>e<epochs. trainloader e \<noteq> [])) \<and>
     calls (snd (train T trainloader p0))
       = concat (map (\<lambda>(b, p, f). pass_calls T b p f) (zip (all_batches trainloader) qs))"
proof -
  have "(\<forall>e \<in> set [0..<epochs]. trainloader e \<noteq> []) \<longleftrightarrow> (\<forall>e<epochs. trainloader e \<noteq> [])"
    by auto
  with epochs_loop_calls [of trainloader "[0..<epochs]" T
      "\<lparr>parameters = p0, grad = None, running_loss = zero_loss T, printed = [], calls = []\<rparr>"]
  show ?thesis
    by (simp add: train_def all_batches_def del: set_upt)
qed

lemma train_calls:
  "\<exists>qs. length qs = length (all_batches trainloader) \<and>
     calls (snd (train T trainloader p0))
       = concat (map (\<lambda>(b, p, f). pass_calls T b p f) (zip (all_batches trainloader) qs))"
  using train_calls_error [of trainloader T p0] by (elim exE conjE) (intro exI conjI)

lemma train_error:
  "fst (train T trainloader p0) = None \<longleftrightarrow> (\<forall>e<epochs. trainloader e \<noteq> [])"
  using train_calls_error [of trainloader T p0] by (elim exE conjE)

lemma train_call_nth:
  assumes "k < length (all_batches trainloader)"
  shows "\<exists>p f. \<forall>j<5. calls (snd (train T trainloader p0)) ! (5 * k + j)
            = pass_calls T (all_batches trainloader ! k) p f ! j"
proof -
  from train_calls [of trainloader T p0] obtain qs where
    qs: "length qs = length (all_batches trainloader)"
    "calls (snd (train T trainloader p0))
       = concat (map (\<lambda>(b, p, f). pass_calls T b p f) (zip (all_batches trainloader) qs))"
    by blast
  let ?zs = "zip (all_batches trainloader) qs"
  have k: "k < length ?zs"
    using qs(1) assms by simp
  have len: "\<And>z. length ((\<lambda>(b, p, f). pass_calls T b p f) z) = 5"
    by (simp add: length_pass_calls split: prod.split)
  have zk: "?zs ! k = (all_batches trainloader ! k, fst (qs ! k), snd (qs ! k))"
    using qs(1) assms by simp
  have "\<forall>j<5. calls (snd (train T trainloader p0)) ! (5 * k + j)
            = pass_calls T (all_batches trainloader ! k) (fst (qs ! k)) (snd (qs ! k)) ! j"
  proof (intro allI impI)
    fix j :: nat
    assume "j < 5"
    from concat_blocks_nth [of "\<lambda>(b, p, f). pass_calls T b p f" 5 k ?zs j, OF len k this]
    show "calls (snd (train T trainloader p0)) ! (5 * k + j)
            = pass_calls T (all_batches trainloader ! k) (fst (qs ! k)) (snd (qs ! k)) ! j"
      using qs(2) zk by (simp add: case_prod_beta)
  qed
  then show ?thesis by blast
qed

lemma train_steps_before:
  assumes "k < length (all_batches trainloader)"
  shows "length (filter is_step (take (5 * k + 3) (calls (snd (train T trainloader p0))))) = k"
proof -
  from train_calls [of trainloader T p0] obtain qs where
    qs: "length qs = length (all_batches trainloader)"
    "calls (snd (train T trainloader p0))
       = concat (map (\<lambda>(b, p, f). pass_calls T b p f) (zip (all_batches trainloader) qs))"
    by blast
  let ?zs = "zip (all_batches trainloader) qs"
  let ?F = "\<lambda>(b, p, f). pass_calls T b p f"
  have k: "k < length ?zs"
    using qs(1) assms by simp
  have len: "\<And>z. length (?F z) = 5"
    by (simp add: length_pass_calls split: prod.split)
  have "take (5 * k + 3) (concat (map ?F ?zs)) = concat (map ?F (take k ?zs)) @ take 3 (?F (?zs ! k))"
    by (rule concat_blocks_take [OF len k]) simp
  moreover have "filter is_step (take 3 (?F (?zs ! k))) = []"
    by (simp add: pass_calls_def Let_def split: prod.split)
  moreover have "length (filter is_step (concat (map ?F (take k ?zs)))) = length (take k ?zs)"
    by (rule steps_of_passes)
  ultimately show ?thesis
    using qs(2) k by simp
qed

lemma example_batches: "length (all_batches example_loader) = 10"
  by code_simp

lemma example_nonempty: "\<forall>e<epochs. example_loader e \<noteq> []"
  by (simp add: example_loader_def)

lemma example_batch_3: "all_batches example_loader ! 3 = (3, 4)"
  by code_simp

subsection \<open>The weights of a run\<close>

text \<open>
  A pass reads the running loss and the printed lines nowhere but to extend them: what it
  does to the weights, to the gradient buffer and to the calls depends on these three
  alone.
\<close>

lemma training_pass_parameters:
  "\<exists>g. pass_calls T b (parameters st) (grad st = None) ! 4 = Step (Some g) \<and>
       parameters (training_pass T b st) = sgd_update T (parameters st) g"
  by (cases b; cases "grad st")
    (simp_all add: training_pass_def zero_grad_def forward_def compute_loss_def backward_def
      optimizer_step_def pass_calls_def Let_def)

lemma training_pass_agree:
  assumes "parameters s = parameters s'" and "grad s = grad s'" and "calls s = calls s'"
  shows "parameters (training_pass T b s) = parameters (training_pass T b s') \<and>
    grad (training_pass T b s) = grad (training_pass T b s') \<and>
    calls (training_pass T b s) = calls (training_pass T b s')"
  using assms
  by (cases b; cases "grad s'")
    (simp_all add: training_pass_def zero_grad_def forward_def compute_loss_def backward_def
      optimizer_step_def Let_def)

lemma fold_training_pass_agree:
  assumes "parameters s = parameters s'" and "grad s = grad s'" and "calls s = calls s'"
  shows "parameters (fold (training_pass T) bs s) = parameters (fold (training_pass T) bs s') \<and>
    grad (fold (training_pass T) bs s) = grad (fold (training_pass T) bs s') \<and>
    calls (fold (training_pass T) bs s) = calls (fold (training_pass T) bs s')"
  using assms
proof (induction bs arbitrary: s s')
  case Nil
  then show ?case by simp
next
  case (Cons b bs)
  from training_pass_agree [OF Cons.prems, of T b]
  have "parameters (training_pass T b s) = parameters (training_pass T b s')"
    and "grad (training_pass T b s) = grad (training_pass T b s')"
    and "calls (training_pass T b s) = calls (training_pass T b s')"
    by simp_all
  from Cons.IH [OF this] show ?case
    by simp
qed

text \<open>
  The epochs reset the running loss and print; for the weights, the gradient buffer and
  the calls a run is one sequence of passes over the batches it processes.
\<close>

lemma epochs_loop_fold:
  "parameters (snd (epochs_loop T trainloader es st))
     = parameters (fold (training_pass T) (processed trainloader es) st) \<and>
   grad (snd (epochs_loop T trainloader es st))
     = grad (fold (training_pass T) (processed trainloader es) st) \<and>
   calls (snd (epochs_loop T trainloader es st))
     = calls (fold (training_pass T) (processed trainloader es) st)"
proof (induction es arbitrary: st)
  case Nil
  then show ?case by simp
next
  case (Cons e es)
  show ?case
  proof (cases "trainloader e = []")
    case True
    then have "epochs_loop T trainloader (e # es) st
        = (Some ZeroDivisionError, st\<lparr>running_loss := zero_loss T\<rparr>)"
      by (simp add: epoch_def Let_def)
    with True show ?thesis
      by (simp add: processed_Cons del: epochs_loop.simps)
  next
    case False
    let ?bs = "trainloader e"
    let ?st1 = "fold (training_pass T) ?bs (st\<lparr>running_loss := zero_loss T\<rparr>)"
    let ?st2 = "?st1\<lparr>printed := printed ?st1 @ [mean_loss T (running_loss ?st1) (length ?bs)]\<rparr>"
    let ?mid = "fold (training_pass T) ?bs st"
    from False have run: "epochs_loop T trainloader (e # es) st = epochs_loop T trainloader es ?st2"
      by (simp add: epoch_def Let_def)
    have "parameters (st\<lparr>running_loss := zero_loss T\<rparr>) = parameters st"
      and "grad (st\<lparr>running_loss := zero_loss T\<rparr>) = grad st"
      and "calls (st\<lparr>running_loss := zero_loss T\<rparr>) = calls st"
      by simp_all
    from fold_training_pass_agree [OF this, of T ?bs]
    have "parameters ?st2 = parameters ?mid" and "grad ?st2 = grad ?mid"
      and "calls ?st2 = calls ?mid"
      by simp_all
    from fold_training_pass_agree [OF this, of T "processed trainloader es"]
    have agree: "parameters (fold (training_pass T) (processed trainloader es) ?st2)
          = parameters (fold (training_pass T) (processed trainloader es) ?mid)"
      "grad (fold (training_pass T) (processed trainloader es) ?st2)
          = grad (fold (training_pass T) (processed trainloader es) ?mid)"
      "calls (fold (training_pass T) (processed trainloader es) ?st2)
          = calls (fold (training_pass T) (processed trainloader es) ?mid)"
      by simp_all
    have "fold (training_pass T) (processed trainloader (e # es)) st
        = fold (training_pass T) (processed trainloader es) ?mid"
      using False by (simp add: processed_Cons)
    with Cons.IH [of ?st2] agree show ?thesis
      by (simp add: run del: epochs_loop.simps)
  qed
qed

text \<open>
  The weights before each pass of a sequence of passes and after the last: the first are
  those of the state the passes start in, each pass takes them to their update by the
  gradient buffer its step reads, and the last are those of the state the passes leave.
\<close>

lemma fold_training_pass_chain:
  "\<exists>ps fs. length ps = Suc (length bs) \<and> length fs = length bs \<and>
     ps ! 0 = parameters st \<and>
     parameters (fold (training_pass T) bs st) = ps ! length bs \<and>
     calls (fold (training_pass T) bs st)
       = calls st @ concat (map (\<lambda>(b, p, f). pass_calls T b p f) (zip bs (zip ps fs))) \<and>
     (\<forall>k<length bs. \<exists>g. pass_calls T (bs ! k) (ps ! k) (fs ! k) ! 4 = Step (Some g) \<and>
                          ps ! Suc k = sgd_update T (ps ! k) g)"
proof (induction bs arbitrary: st)
  case Nil
  show ?case
    by (rule exI [of _ "[parameters st]"], rule exI [of _ "[]"]) simp
next
  case (Cons b bs)
  let ?st = "training_pass T b st"
  from Cons.IH [of ?st] obtain ps fs where
    all: "length ps = Suc (length bs) \<and> length fs = length bs \<and>
     ps ! 0 = parameters ?st \<and>
     parameters (fold (training_pass T) bs ?st) = ps ! length bs \<and>
     calls (fold (training_pass T) bs ?st)
       = calls ?st @ concat (map (\<lambda>(b, p, f). pass_calls T b p f) (zip bs (zip ps fs))) \<and>
     (\<forall>k<length bs. \<exists>g. pass_calls T (bs ! k) (ps ! k) (fs ! k) ! 4 = Step (Some g) \<and>
                          ps ! Suc k = sgd_update T (ps ! k) g)"
    by (elim exE)
  note len = all [THEN conjunct1]
  note lenf = all [THEN conjunct2, THEN conjunct1]
  note start = all [THEN conjunct2, THEN conjunct2, THEN conjunct1]
  note final = all [THEN conjunct2, THEN conjunct2, THEN conjunct2, THEN conjunct1]
  note cs = all [THEN conjunct2, THEN conjunct2, THEN conjunct2, THEN conjunct2, THEN conjunct1]
  note chain = all [THEN conjunct2, THEN conjunct2, THEN conjunct2, THEN conjunct2, THEN conjunct2]
  from training_pass_parameters [of T b st] obtain g0 where
    g0: "pass_calls T b (parameters st) (grad st = None) ! 4 = Step (Some g0)"
    "parameters ?st = sgd_update T (parameters st) g0"
    by (elim exE conjE)
  let ?ps = "parameters st # ps"
  let ?fs = "(grad st = None) # fs"
  have "length ?ps = Suc (length (b # bs))"
    using len by simp
  moreover have "length ?fs = length (b # bs)"
    using lenf by simp
  moreover have "?ps ! 0 = parameters st"
    by simp
  moreover have "parameters (fold (training_pass T) (b # bs) st) = ?ps ! length (b # bs)"
    using final by simp
  moreover have "calls (fold (training_pass T) (b # bs) st)
       = calls st @ concat (map (\<lambda>(b, p, f). pass_calls T b p f) (zip (b # bs) (zip ?ps ?fs)))"
    using cs by (simp add: training_pass_calls)
  moreover have "\<forall>k<length (b # bs). \<exists>g.
       pass_calls T ((b # bs) ! k) (?ps ! k) (?fs ! k) ! 4 = Step (Some g) \<and>
       ?ps ! Suc k = sgd_update T (?ps ! k) g"
  proof (intro allI impI)
    fix k
    assume k: "k < length (b # bs)"
    show "\<exists>g. pass_calls T ((b # bs) ! k) (?ps ! k) (?fs ! k) ! 4 = Step (Some g) \<and>
       ?ps ! Suc k = sgd_update T (?ps ! k) g"
    proof (cases k)
      case 0
      with g0 start show ?thesis by simp
    next
      case (Suc k')
      with k have "k' < length bs" by simp
      with chain have "\<exists>g. pass_calls T (bs ! k') (ps ! k') (fs ! k') ! 4 = Step (Some g) \<and>
          ps ! Suc k' = sgd_update T (ps ! k') g"
        by simp
      with Suc show ?thesis by simp
    qed
  qed
  ultimately show ?case
    by (intro exI [of _ ?ps] exI [of _ ?fs] conjI)
qed

lemma train_chain:
  "\<exists>ps fs. length ps = Suc (length (all_batches trainloader)) \<and>
     length fs = length (all_batches trainloader) \<and>
     ps ! 0 = p0 \<and>
     parameters (snd (train T trainloader p0)) = ps ! length (all_batches trainloader) \<and>
     calls (snd (train T trainloader p0))
       = concat (map (\<lambda>(b, p, f). pass_calls T b p f)
                   (zip (all_batches trainloader) (zip ps fs))) \<and>
     (\<forall>k<length (all_batches trainloader). \<exists>g.
        pass_calls T (all_batches trainloader ! k) (ps ! k) (fs ! k) ! 4 = Step (Some g) \<and>
        ps ! Suc k = sgd_update T (ps ! k) g)"
proof -
  let ?st0 = "\<lparr>parameters = p0, grad = None, running_loss = zero_loss T, printed = [],
      calls = []\<rparr>"
  from epochs_loop_fold [of T trainloader "[0..<epochs]" ?st0]
  have "parameters (snd (train T trainloader p0))
      = parameters (fold (training_pass T) (all_batches trainloader) ?st0)"
    and "calls (snd (train T trainloader p0))
      = calls (fold (training_pass T) (all_batches trainloader) ?st0)"
    by (simp_all add: train_def all_batches_def)
  with fold_training_pass_chain [of "all_batches trainloader" ?st0 T]
  show ?thesis
    by simp
qed

lemma example_all_batches:
  "all_batches example_loader
     = [(1, 2), (3, 4), (1, 2), (3, 4), (1, 2), (3, 4), (1, 2), (3, 4), (1, 2), (3, 4)]"
  by code_simp

subsection \<open>Order of the calls in a pass\<close>

text \<open>
  C6. A run of the loop makes five calls for each batch it processes and raises nothing
  unless a loader yields no batch. The weights of the model go through a sequence, one
  value before each batch processed and one after the last: it starts at the weights the
  model is built with and ends at the weights the run leaves. For the \<open>k\<close>-th batch
  processed the forward pass is made through the model with the weights before that batch,
  on its (flattened) images; the loss is computed from the output of that forward pass and
  the batch's labels; \<open>backward\<close> is called on that loss; and the optimizer step
  follows, reads a gradient buffer that holds the gradient of that loss, and updates the
  weights before the batch by it to the weights after the batch, which the forward pass of
  the next batch is made with. Before the \<open>backward\<close> of the \<open>k\<close>-th batch exactly
  \<open>k\<close> optimizer steps have been made, those of the batches before it.
\<close>

theorem training_pass_order:
  assumes "train T trainloader p0 = (err, st)"
  shows "(err = None \<longleftrightarrow> (\<forall>e<epochs. trainloader e \<noteq> [])) \<and>
    length (calls st) = 5 * length (all_batches trainloader) \<and>
    (\<exists>ps. length ps = Suc (length (all_batches trainloader)) \<and>
       ps ! 0 = p0 \<and>
       parameters st = ps ! length (all_batches trainloader) \<and>
       (\<forall>k<length (all_batches trainloader). \<exists>out loss g.
          out = model_forward T (ps ! k) (view_flat T (fst (all_batches trainloader ! k))) \<and>
          loss = criterion T out (snd (all_batches trainloader ! k)) \<and>
          calls st ! (5 * k + 1) = Forward (view_flat T (fst (all_batches trainloader ! k))) out \<and>
          calls st ! (5 * k + 2) = Criterion out (snd (all_batches trainloader ! k)) loss \<and>
          calls st ! (5 * k + 3) = Backward loss \<and>
          calls st ! (5 * k + 4) = Step (Some g) \<and>
          (g = gradient T loss \<or> g = accumulate T (zero_gradient T) (gradient T loss)) \<and>
          ps ! Suc k = sgd_update T (ps ! k) g \<and>
          length (filter is_step (take (5 * k + 3) (calls st))) = k))"
proof -
  let ?bs = "all_batches trainloader"
  have st: "snd (train T trainloader p0) = st" and err: "fst (train T trainloader p0) = err"
    using assms by simp_all
  from train_chain [of trainloader p0 T] obtain ps fs where
    all: "length ps = Suc (length ?bs) \<and> length fs = length ?bs \<and> ps ! 0 = p0 \<and>
     parameters (snd (train T trainloader p0)) = ps ! length ?bs \<and>
     calls (snd (train T trainloader p0))
       = concat (map (\<lambda>(b, p, f). pass_calls T b p f) (zip ?bs (zip ps fs))) \<and>
     (\<forall>k<length ?bs. \<exists>g.
        pass_calls T (?bs ! k) (ps ! k) (fs ! k) ! 4 = Step (Some g) \<and>
        ps ! Suc k = sgd_update T (ps ! k) g)"
    by (elim exE)
  note len = all [THEN conjunct1]
  note lenf = all [THEN conjunct2, THEN conjunct1]
  note start = all [THEN conjunct2, THEN conjunct2, THEN conjunct1]
  note final = all [THEN conjunct2, THEN conjunct2, THEN conjunct2, THEN conjunct1]
  note cs = all [THEN conjunct2, THEN conjunct2, THEN conjunct2, THEN conjunct2, THEN conjunct1]
  note chain = all [THEN conjunct2, THEN conjunct2, THEN conjunct2, THEN conjunct2, THEN conjunct2]
  let ?F = "\<lambda>(b, p, f). pass_calls T b p f"
  let ?zs = "zip ?bs (zip ps fs)"
  have lenz: "length ?zs = length ?bs"
    using len lenf by simp
  have five: "\<And>z. length (?F z) = 5"
    by (simp add: length_pass_calls split: prod.split)
  from concat_blocks_length [of ?F 5, OF five]
  have c_len: "length (calls st) = 5 * length ?bs"
    using cs st lenz by simp
  from err train_error [of T trainloader p0]
  have c_err: "err = None \<longleftrightarrow> (\<forall>e<epochs. trainloader e \<noteq> [])"
    by simp
  have c_final: "parameters st = ps ! length ?bs"
    using final st by simp
  have c_pass: "\<forall>k<length ?bs. \<exists>out loss g.
      out = model_forward T (ps ! k) (view_flat T (fst (?bs ! k))) \<and>
      loss = criterion T out (snd (?bs ! k)) \<and>
      calls st ! (5 * k + 1) = Forward (view_flat T (fst (?bs ! k))) out \<and>
      calls st ! (5 * k + 2) = Criterion out (snd (?bs ! k)) loss \<and>
      calls st ! (5 * k + 3) = Backward loss \<and>
      calls st ! (5 * k + 4) = Step (Some g) \<and>
      (g = gradient T loss \<or> g = accumulate T (zero_gradient T) (gradient T loss)) \<and>
      ps ! Suc k = sgd_update T (ps ! k) g \<and>
      length (filter is_step (take (5 * k + 3) (calls st))) = k"
  proof (intro allI impI)
    fix k
    assume k: "k < length ?bs"
    let ?b = "?bs ! k"
    let ?out = "model_forward T (ps ! k) (view_flat T (fst ?b))"
    let ?loss = "criterion T ?out (snd ?b)"
    have kz: "k < length ?zs"
      using k lenz by simp
    have zk: "?zs ! k = (?b, ps ! k, fs ! k)"
      using k len lenf by simp
    have nth: "calls st ! (5 * k + j) = pass_calls T ?b (ps ! k) (fs ! k) ! j" if "j < 5" for j
      using concat_blocks_nth [of ?F 5 k ?zs j, OF five kz that] cs st zk by simp
    from chain k obtain g where
      g: "pass_calls T ?b (ps ! k) (fs ! k) ! 4 = Step (Some g)"
      "ps ! Suc k = sgd_update T (ps ! k) g"
      by blast
    have c1: "calls st ! (5 * k + 1) = Forward (view_flat T (fst ?b)) ?out"
      using nth [of 1] by (simp add: pass_calls_def Let_def)
    have c2: "calls st ! (5 * k + 2) = Criterion ?out (snd ?b) ?loss"
      using nth [of 2] by (simp add: pass_calls_def Let_def)
    have c3: "calls st ! (5 * k + 3) = Backward ?loss"
      using nth [of 3] by (simp add: pass_calls_def Let_def)
    have c4: "calls st ! (5 * k + 4) = Step (Some g)"
      using nth [of 4] g(1) by simp
    have c5: "g = gradient T ?loss \<or> g = accumulate T (zero_gradient T) (gradient T ?loss)"
      using g(1) by (cases "fs ! k") (simp_all add: pass_calls_def Let_def)
    have c6: "length (filter is_step (take (5 * k + 3) (calls st))) = k"
      using train_steps_before [OF k, of T p0] st by simp
    from c1 c2 c3 c4 c5 g(2) c6
    show "\<exists>out loss g.
      out = model_forward T (ps ! k) (view_flat T (fst ?b)) \<and>
      loss = criterion T out (snd ?b) \<and>
      calls st ! (5 * k + 1) = Forward (view_flat T (fst ?b)) out \<and>
      calls st ! (5 * k + 2) = Criterion out (snd ?b) loss \<and>
      calls st ! (5 * k + 3) = Backward loss \<and>
      calls st ! (5 * k + 4) = Step (Some g) \<and>
      (g = gradient T loss \<or> g = accumulate T (zero_gradient T) (gradient T loss)) \<and>
      ps ! Suc k = sgd_update T (ps ! k) g \<and>
      length (filter is_step (take (5 * k + 3) (calls st))) = k"
      by (intro exI [of _ ?out] exI [of _ ?loss] exI [of _ g] conjI) simp_all
  qed
  from len start c_final c_pass
  have "\<exists>ps. length ps = Suc (length ?bs) \<and> ps ! 0 = p0 \<and> parameters st = ps ! length ?bs \<and>
       (\<forall>k<length ?bs. \<exists>out loss g.
          out = model_forward T (ps ! k) (view_flat T (fst (?bs ! k))) \<and>
          loss = criterion T out (snd (?bs ! k)) \<and>
          calls st ! (5 * k + 1) = Forward (view_flat T (fst (?bs ! k))) out \<and>
          calls st ! (5 * k + 2) = Criterion out (snd (?bs ! k)) loss \<and>
          calls st ! (5 * k + 3) = Backward loss \<and>
          calls st ! (5 * k + 4) = Step (Some g) \<and>
          (g = gradient T loss \<or> g = accumulate T (zero_gradient T) (gradient T loss)) \<and>
          ps ! Suc k = sgd_update T (ps ! k) g \<and>
          length (filter is_step (take (5 * k + 3) (calls st))) = k)"
    by (intro exI [of _ ps] conjI)
  with c_err c_len show ?thesis
    by (intro conjI)
qed

text \<open>
  On the example library, two batches an epoch, started with the weight \<open>1\<close>: the
  weights before the first five batches are \<open>1\<close>, \<open>3\<close>, \<open>-7\<close>, \<open>11\<close> and \<open>-47\<close>,
  and the calls of the fourth batch and the forward pass of the fifth are as computed
  from them.
\<close>

theorem training_pass_order_witness:
  "fst (train example_torch example_loader 1) = None \<and>
   length (calls (snd (train example_torch example_loader 1))) = 50 \<and>
   calls (snd (train example_torch example_loader 1)) ! 16 = Forward 3 33 \<and>
   calls (snd (train example_torch example_loader 1)) ! 17 = Criterion 33 4 29 \<and>
   calls (snd (train example_torch example_loader 1)) ! 18 = Backward 29 \<and>
   calls (snd (train example_torch example_loader 1)) ! 19 = Step (Some 58) \<and>
   calls (snd (train example_torch example_loader 1)) ! 21 = Forward 1 (- 47) \<and>
   length (filter is_step (take 18 (calls (snd (train example_torch example_loader 1))))) = 3"
proof -
  let ?st = "snd (train example_torch example_loader 1)"
  have run: "train example_torch example_loader 1
      = (fst (train example_torch example_loader 1), ?st)"
    by simp
  have T: "view_flat example_torch = (\<lambda>x. x)" "model_forward example_torch = (\<lambda>p x. p * x)"
    "criterion example_torch = (\<lambda>out y. out - y)" "gradient example_torch = (\<lambda>l. 2 * l)"
    "zero_gradient example_torch = 0" "accumulate example_torch = (\<lambda>g h. g + h)"
    "sgd_update example_torch = (\<lambda>p g. p - g)"
    by (simp_all add: example_torch_def)
  from training_pass_order [OF run] example_nonempty
  obtain ps where
    ok: "fst (train example_torch example_loader 1) = None"
    and len: "length (calls ?st) = 50"
    and p0: "ps ! 0 = 1"
    and pass: "\<forall>k<10. \<exists>out loss g.
          out = ps ! k * fst (all_batches example_loader ! k) \<and>
          loss = out - snd (all_batches example_loader ! k) \<and>
          calls ?st ! (5 * k + 1) = Forward (fst (all_batches example_loader ! k)) out \<and>
          calls ?st ! (5 * k + 2) = Criterion out (snd (all_batches example_loader ! k)) loss \<and>
          calls ?st ! (5 * k + 3) = Backward loss \<and>
          calls ?st ! (5 * k + 4) = Step (Some g) \<and>
          g = 2 * loss \<and>
          ps ! Suc k = ps ! k - g \<and>
          length (filter is_step (take (5 * k + 3) (calls ?st))) = k"
    by (auto simp add: example_batches T)
  from pass [rule_format, of 0] p0 have p1: "ps ! 1 = 3"
    by (auto simp add: example_all_batches)
  from pass [rule_format, of 1] p1 have p2: "ps ! 2 = - 7"
    by (auto simp add: example_all_batches numeral_2_eq_2)
  from pass [rule_format, of 2] p2 have p3: "ps ! 3 = 11"
    by (auto simp add: example_all_batches)
  from pass [rule_format, of 3] p3 have fourth:
    "calls ?st ! 16 = Forward 3 33" "calls ?st ! 17 = Criterion 33 4 29"
    "calls ?st ! 18 = Backward 29" "calls ?st ! 19 = Step (Some 58)"
    "length (filter is_step (take 18 (calls ?st))) = 3" "ps ! 4 = - 47"
    by (auto simp add: example_all_batches)
  from pass [rule_format, of 4] fourth(6) have fifth: "calls ?st ! 21 = Forward 1 (- 47)"
    by (auto simp add: example_all_batches)
  from ok len fourth(1-5) fifth show ?thesis
    by (intro conjI)
qed

subsection \<open>Gradients of a step\<close>

text \<open>
  C8. In the pass over the \<open>k\<close>-th batch a run processes, \<open>zero_grad\<close> is called
  first, nothing but the forward pass and the loss computation lies between it and the
  \<open>backward\<close> on the loss of this batch, and the gradient buffer the optimizer step
  then reads is the gradient of this loss alone: set from it, or accumulated from it onto
  the zero gradient.
\<close>

theorem zero_grad_before_backward:
  assumes "train T trainloader p0 = (err, st)"
    and "k < length (all_batches trainloader)"
  shows "calls st ! (5 * k) = ZeroGrad \<and>
    (\<exists>images out labels loss.
       calls st ! (5 * k + 1) = Forward images out \<and>
       calls st ! (5 * k + 2) = Criterion out labels loss \<and>
       calls st ! (5 * k + 3) = Backward loss \<and>
       (calls st ! (5 * k + 4) = Step (Some (gradient T loss)) \<or>
        calls st ! (5 * k + 4)
          = Step (Some (accumulate T (zero_gradient T) (gradient T loss)))))"
proof -
  have st: "snd (train T trainloader p0) = st"
    using assms(1) by simp
  from train_call_nth [OF assms(2), of T p0] obtain p f where
    nth: "\<forall>j<5. calls st ! (5 * k + j) = pass_calls T (all_batches trainloader ! k) p f ! j"
    using st by auto
  let ?b = "all_batches trainloader ! k"
  let ?out = "model_forward T p (view_flat T (fst ?b))"
  let ?loss = "criterion T ?out (snd ?b)"
  have c0: "calls st ! (5 * k) = ZeroGrad"
    using nth [rule_format, of 0] by (simp add: pass_calls_def Let_def)
  have c1: "calls st ! (5 * k + 1) = Forward (view_flat T (fst ?b)) ?out"
    using nth [rule_format, of 1] by (simp add: pass_calls_def Let_def)
  have c2: "calls st ! (5 * k + 2) = Criterion ?out (snd ?b) ?loss"
    using nth [rule_format, of 2] by (simp add: pass_calls_def Let_def)
  have c3: "calls st ! (5 * k + 3) = Backward ?loss"
    using nth [rule_format, of 3] by (simp add: pass_calls_def Let_def)
  have c4: "calls st ! (5 * k + 4) = Step (Some (gradient T ?loss)) \<or>
      calls st ! (5 * k + 4) = Step (Some (accumulate T (zero_gradient T) (gradient T ?loss)))"
    using nth [rule_format, of 4] by (cases f) (simp_all add: pass_calls_def Let_def)
  from c0 c1 c2 c3 c4 show ?thesis
    by blast
qed

text \<open>On the example library, for the fourth batch processed.\<close>

theorem zero_grad_before_backward_witness:
  "(3::nat) < length (all_batches example_loader) \<and>
   calls (snd (train example_torch example_loader 1)) ! 15 = ZeroGrad \<and>
   (\<exists>loss. calls (snd (train example_torch example_loader 1)) ! 18 = Backward loss \<and>
           calls (snd (train example_torch example_loader 1)) ! 19 = Step (Some (2 * loss)))"
proof -
  have k: "(3::nat) < length (all_batches example_loader)"
    by (simp add: example_batches)
  have run: "train example_torch example_loader 1
      = (fst (train example_torch example_loader 1), snd (train example_torch example_loader 1))"
    by simp
  have T: "gradient example_torch = (\<lambda>l. 2 * l)" "zero_gradient example_torch = 0"
    "accumulate example_torch = (\<lambda>g h. g + h)"
    by (simp_all add: example_torch_def)
  from zero_grad_before_backward [OF run k]
  obtain loss where
    "calls (snd (train example_torch example_loader 1)) ! 15 = ZeroGrad"
    "calls (snd (train example_torch example_loader 1)) ! 18 = Backward loss"
    "calls (snd (train example_torch example_loader 1)) ! 19 = Step (Some (2 * loss))"
    by (auto simp add: T)
  with k show ?thesis
    by blast
qed

section \<open>Properties of the checkpoint notebook\<close>

subsection \<open>Names of the parameters\<close>

lemma digit_inj: "n < 10 \<Longrightarrow> m < 10 \<Longrightarrow> digit n = digit m \<Longrightarrow> n = m"
proof -
  assume n: "n < 10" and m: "m < 10" and eq: "digit n = digit m"
  have d: "distinct ''0123456789''"
    by simp
  from nth_eq_iff_index_eq [OF d, of n m] n m eq show "n = m"
    by (simp add: digit_def)
qed

lemma string_of_nat_small: "n < 10 \<Longrightarrow> string_of_nat n = [digit n]"
  by (subst string_of_nat.simps) simp

lemma string_of_nat_large:
  "\<not> n < 10 \<Longrightarrow> string_of_nat n = string_of_nat (n div 10) @ [digit (n mod 10)]"
  by (subst string_of_nat.simps) simp

lemma string_of_nat_nonempty: "string_of_nat n \<noteq> []"
  by (cases "n < 10") (simp_all add: string_of_nat_small string_of_nat_large)

lemma string_of_nat_inj: "string_of_nat n = string_of_nat m \<Longrightarrow> n = m"
proof (induction n arbitrary: m rule: string_of_nat.induct)
  case (1 n)
  show ?case
  proof (cases "n < 10")
    case True
    note n = this
    show ?thesis
    proof (cases "m < 10")
      case True
      with n "1.prems" show ?thesis
        by (simp add: string_of_nat_small digit_inj)
    next
      case False
      with n "1.prems" string_of_nat_nonempty [of "m div 10"] show ?thesis
        by (simp add: string_of_nat_small string_of_nat_large Cons_eq_append_conv)
    qed
  next
    case False
    note n = this
    show ?thesis
    proof (cases "m < 10")
      case True
      with n "1.prems" string_of_nat_nonempty [of "n div 10"] show ?thesis
        by (simp add: string_of_nat_small string_of_nat_large append_eq_Cons_conv)
    next
      case False
      with n "1.prems" have eq: "string_of_nat (n div 10) = string_of_nat (m div 10)"
        and dg: "digit (n mod 10) = digit (m mod 10)"
        by (simp_all add: string_of_nat_large)
      from "1.IH" [OF n eq] have "n div 10 = m div 10" .
      moreover from dg have "n mod 10 = m mod 10"
        by (intro digit_inj) simp_all
      ultimately show ?thesis
        by (metis div_mult_mod_eq)
    qed
  qed
qed

lemma hidden_name_eq [simp]: "hidden_name j = hidden_name k \<longleftrightarrow> j = k"
  by (auto simp add: hidden_name_def dest: string_of_nat_inj)

lemma weight_key_eq [simp]:
  "hidden_name j @ ''.weight'' = hidden_name k @ ''.weight'' \<longleftrightarrow> j = k"
  by (auto simp add: hidden_name_def dest: string_of_nat_inj)

lemma bias_key_eq [simp]:
  "hidden_name j @ ''.bias'' = hidden_name k @ ''.bias'' \<longleftrightarrow> j = k"
  by (auto simp add: hidden_name_def dest: string_of_nat_inj)

lemma weight_key_not_bias [simp]:
  "hidden_name j @ ''.weight'' \<noteq> hidden_name k @ ''.bias''"
  "hidden_name k @ ''.bias'' \<noteq> hidden_name j @ ''.weight''"
proof -
  have "last (hidden_name j @ ''.weight'') \<noteq> last (hidden_name k @ ''.bias'')"
    by simp
  then show "hidden_name j @ ''.weight'' \<noteq> hidden_name k @ ''.bias''"
    "hidden_name k @ ''.bias'' \<noteq> hidden_name j @ ''.weight''"
    by metis+
qed

lemma hidden_key_not_output [simp]:
  "hidden_name j @ s \<noteq> ''output.weight''" "hidden_name j @ s \<noteq> ''output.bias''"
  "''output.weight'' \<noteq> hidden_name j @ s" "''output.bias'' \<noteq> hidden_name j @ s"
  by (simp_all add: hidden_name_def)

subsection \<open>Looking a parameter up in a state dict\<close>

lemma hidden_state_Nil [simp]: "hidden_state k [] = []"
  by (simp add: hidden_state_def)

lemma hidden_state_Cons [simp]:
  "hidden_state k (l # ls)
     = (hidden_name k @ ''.weight'', weight l) # (hidden_name k @ ''.bias'', bias l)
       # hidden_state (Suc k) ls"
  by (simp add: hidden_state_def linear_state_def)

lemma map_of_hidden_state_weight:
  "map_of (hidden_state k ls @ rest) (hidden_name j @ ''.weight'')
     = (if k \<le> j \<and> j < k + length ls then Some (weight (ls ! (j - k)))
        else map_of rest (hidden_name j @ ''.weight''))"
proof (induction ls arbitrary: k)
  case Nil
  then show ?case by auto
next
  case (Cons l ls)
  show ?case
  proof (cases "j = k")
    case True
    then show ?thesis by simp
  next
    case False
    then have "(k \<le> j \<and> j < k + length (l # ls)) = (Suc k \<le> j \<and> j < Suc k + length ls)"
      by auto
    moreover have "Suc k \<le> j \<Longrightarrow> (l # ls) ! (j - k) = ls ! (j - Suc k)"
      by (simp add: Suc_diff_le)
    ultimately show ?thesis
      using False Cons.IH [of "Suc k"] by simp
  qed
qed

lemma map_of_hidden_state_bias:
  "map_of (hidden_state k ls @ rest) (hidden_name j @ ''.bias'')
     = (if k \<le> j \<and> j < k + length ls then Some (bias (ls ! (j - k)))
        else map_of rest (hidden_name j @ ''.bias''))"
proof (induction ls arbitrary: k)
  case Nil
  then show ?case by auto
next
  case (Cons l ls)
  show ?case
  proof (cases "j = k")
    case True
    then show ?thesis by simp
  next
    case False
    then have "(k \<le> j \<and> j < k + length (l # ls)) = (Suc k \<le> j \<and> j < Suc k + length ls)"
      by auto
    moreover have "Suc k \<le> j \<Longrightarrow> (l # ls) ! (j - k) = ls ! (j - Suc k)"
      by (simp add: Suc_diff_le)
    ultimately show ?thesis
      using False Cons.IH [of "Suc k"] by simp
  qed
qed

lemma map_of_hidden_state_output:
  "map_of (hidden_state k ls @ rest) ''output.weight'' = map_of rest ''output.weight''"
  "map_of (hidden_state k ls @ rest) ''output.bias'' = map_of rest ''output.bias''"
  by (induction ls arbitrary: k) simp_all

lemma lookup_hidden_weight:
  "map_of (state_dict m) (hidden_name j @ ''.weight'')
     = (if j < length (hidden_layers m) then Some (weight (hidden_layers m ! j)) else None)"
  unfolding state_dict_def
  by (simp add: map_of_hidden_state_weight linear_state_def del: map_of_append)

lemma lookup_hidden_bias:
  "map_of (state_dict m) (hidden_name j @ ''.bias'')
     = (if j < length (hidden_layers m) then Some (bias (hidden_layers m ! j)) else None)"
  unfolding state_dict_def
  by (simp add: map_of_hidden_state_bias linear_state_def del: map_of_append)

lemma lookup_output:
  "map_of (state_dict m) ''output.weight'' = Some (weight (output_layer m))"
  "map_of (state_dict m) ''output.bias'' = Some (bias (output_layer m))"
  unfolding state_dict_def
  by (simp_all add: map_of_hidden_state_output linear_state_def del: map_of_append)

subsection \<open>The keys of a state dict\<close>

lemma keys_hidden_state: "map fst (hidden_state k ls) = hidden_keys k (length ls)"
proof (induction ls arbitrary: k)
  case Nil
  then show ?case by (simp add: hidden_keys_def)
next
  case (Cons l ls)
  have "[k..<k + length (l # ls)] = k # [Suc k..<k + length (l # ls)]"
    by (rule upt_conv_Cons) simp
  moreover have "k + length (l # ls) = Suc k + length ls"
    by simp
  ultimately have "[k..<k + length (l # ls)] = k # [Suc k..<Suc k + length ls]"
    by (simp only:)
  with Cons.IH [of "Suc k"] show ?case
    by (simp add: hidden_keys_def del: upt_Suc)
qed

lemma keys_state_dict:
  "map fst (state_dict m)
     = hidden_keys 0 (length (hidden_layers m)) @ [''output.weight'', ''output.bias'']"
  by (simp add: state_dict_def keys_hidden_state linear_state_def)

lemma set_hidden_keys:
  "set (hidden_keys k n)
     = {hidden_name j @ ''.weight'' | j. k \<le> j \<and> j < k + n} \<union>
       {hidden_name j @ ''.bias'' | j. k \<le> j \<and> j < k + n}"
  by (auto simp add: hidden_keys_def)

subsection \<open>Loading a state dict\<close>

lemma load_linear_hidden_same:
  assumes "j < length (hidden_layers m)"
    and "shape (weight (hidden_layers m ! j)) = shape (weight l)"
    and "shape (bias (hidden_layers m ! j)) = shape (bias l)"
  shows "load_linear (state_dict m) (hidden_name j) l
     = (l\<lparr>weight := weight (hidden_layers m ! j), bias := bias (hidden_layers m ! j)\<rparr>, [])"
  using assms
  by (simp add: load_linear_def load_param_def lookup_hidden_weight lookup_hidden_bias)

lemma load_linear_hidden_ok:
  assumes "j < length (hidden_layers m)"
    and "snd (load_linear (state_dict m) (hidden_name j) l) = []"
  shows "shape (weight (hidden_layers m ! j)) = shape (weight l) \<and>
         shape (bias (hidden_layers m ! j)) = shape (bias l)"
  using assms
  by (simp add: load_linear_def load_param_def lookup_hidden_weight lookup_hidden_bias
      split: if_splits)

lemma load_linear_output_same:
  assumes "shape (weight (output_layer m)) = shape (weight l)"
    and "shape (bias (output_layer m)) = shape (bias l)"
  shows "load_linear (state_dict m) ''output'' l
     = (l\<lparr>weight := weight (output_layer m), bias := bias (output_layer m)\<rparr>, [])"
  using assms
  by (simp add: load_linear_def load_param_def lookup_output)

lemma load_linear_output_ok:
  assumes "snd (load_linear (state_dict m) ''output'' l) = []"
  shows "shape (weight (output_layer m)) = shape (weight l) \<and>
         shape (bias (output_layer m)) = shape (bias l)"
  using assms
  by (simp add: load_linear_def load_param_def lookup_output split: if_splits)

lemma same_layout_linear:
  assumes "layout_linear l' = layout_linear l"
  shows "l'\<lparr>weight := weight l, bias := bias l\<rparr> = l"
  using assms by (intro linear.equality) (simp_all add: layout_linear_def)

lemma load_state_dict_same_layout:
  assumes "layout m' = layout m"
  shows "load_state_dict m' (state_dict m) = (None, m)"
proof -
  let ?ls = "hidden_layers m" and ?ls' = "hidden_layers m'" and ?sd = "state_dict m"
  from assms have lay: "map layout_linear ?ls' = map layout_linear ?ls"
    and out: "layout_linear (output_layer m') = layout_linear (output_layer m)"
    by (simp_all add: layout_def)
  from lay have len: "length ?ls' = length ?ls"
    by (rule map_eq_imp_length_eq)
  have hid: "map (\<lambda>(k, l). load_linear ?sd (hidden_name k) l) (enumerate 0 ?ls')
      = map (\<lambda>l. (l, [])) ?ls"
  proof (rule nth_equalityI)
    show "length (map (\<lambda>(k, l). load_linear ?sd (hidden_name k) l) (enumerate 0 ?ls'))
        = length (map (\<lambda>l. (l, [])) ?ls)"
      by (simp add: len)
  next
    fix k
    assume "k < length (map (\<lambda>(k, l). load_linear ?sd (hidden_name k) l) (enumerate 0 ?ls'))"
    then have k: "k < length ?ls" and k': "k < length ?ls'"
      by (simp_all add: len)
    from lay have "map layout_linear ?ls' ! k = map layout_linear ?ls ! k"
      by simp
    with k k' have same: "layout_linear (?ls' ! k) = layout_linear (?ls ! k)"
      by simp
    then have "shape (weight (?ls ! k)) = shape (weight (?ls' ! k))"
      and "shape (bias (?ls ! k)) = shape (bias (?ls' ! k))"
      by (simp_all add: layout_linear_def)
    from load_linear_hidden_same [OF k this]
    have "load_linear ?sd (hidden_name k) (?ls' ! k) = (?ls ! k, [])"
      by (simp add: same_layout_linear [OF same])
    with k k'
    show "map (\<lambda>(k, l). load_linear ?sd (hidden_name k) l) (enumerate 0 ?ls') ! k
        = map (\<lambda>l. (l, [])) ?ls ! k"
      by (simp add: nth_enumerate_eq)
  qed
  from out have "shape (weight (output_layer m)) = shape (weight (output_layer m'))"
    and "shape (bias (output_layer m)) = shape (bias (output_layer m'))"
    by (simp_all add: layout_linear_def)
  from load_linear_output_same [OF this]
  have outl: "load_linear ?sd ''output'' (output_layer m') = (output_layer m, [])"
    by (simp add: same_layout_linear [OF out])
  have keys: "map fst (state_dict m') = map fst ?sd"
    by (simp add: keys_state_dict len)
  have missing: "filter (\<lambda>k. map_of ?sd k = None) (map fst (state_dict m')) = []"
    unfolding keys by (simp add: filter_empty_conv map_of_eq_None_iff)
  have unexpected: "filter (\<lambda>k. k \<notin> set (map fst (state_dict m'))) (map fst ?sd) = []"
    unfolding keys by (simp add: filter_empty_conv)
  have "\<lparr>hidden_layers = ?ls, output_layer = output_layer m\<rparr> = m"
    by (cases m) simp
  then show ?thesis
    unfolding load_state_dict_def Let_def hid missing unexpected outl
    by (simp add: o_def)
qed

lemma load_state_dict_success:
  assumes "fst (load_state_dict m' (state_dict m)) = None"
  shows "length (hidden_layers m') = length (hidden_layers m) \<and>
    (\<forall>k<length (hidden_layers m).
       shape (weight (hidden_layers m ! k)) = shape (weight (hidden_layers m' ! k)) \<and>
       shape (bias (hidden_layers m ! k)) = shape (bias (hidden_layers m' ! k))) \<and>
    shape (weight (output_layer m)) = shape (weight (output_layer m')) \<and>
    shape (bias (output_layer m)) = shape (bias (output_layer m'))"
proof -
  let ?ls = "hidden_layers m" and ?ls' = "hidden_layers m'" and ?sd = "state_dict m"
  let ?hid = "map (\<lambda>(k, l). load_linear ?sd (hidden_name k) l) (enumerate 0 ?ls')"
  from assms have miss: "filter (\<lambda>k. map_of ?sd k = None) (map fst (state_dict m')) = []"
    and unex: "filter (\<lambda>k. k \<notin> set (map fst (state_dict m'))) (map fst ?sd) = []"
    and hid: "concat (map snd ?hid) = []"
    and pout: "snd (load_linear ?sd ''output'' (output_layer m')) = []"
    by (simp_all add: load_state_dict_def Let_def split: prod.splits if_splits)
  have le: "length ?ls' \<le> length ?ls"
  proof (rule ccontr)
    assume "\<not> length ?ls' \<le> length ?ls"
    then have lt: "length ?ls < length ?ls'" by simp
    let ?key = "hidden_name (length ?ls) @ ''.weight''"
    from lt have "?key \<in> set (map fst (state_dict m'))"
      unfolding keys_state_dict by (auto simp add: set_hidden_keys)
    moreover have "map_of ?sd ?key = None"
      by (simp add: lookup_hidden_weight)
    moreover from miss have "\<forall>key \<in> set (map fst (state_dict m')). map_of ?sd key \<noteq> None"
      by (simp only: filter_empty_conv not_not)
    ultimately show False
      by blast
  qed
  have ge: "length ?ls \<le> length ?ls'"
  proof (rule ccontr)
    assume "\<not> length ?ls \<le> length ?ls'"
    then have lt: "length ?ls' < length ?ls" by simp
    let ?key = "hidden_name (length ?ls') @ ''.weight''"
    from lt have "?key \<in> set (map fst ?sd)"
      unfolding keys_state_dict by (auto simp add: set_hidden_keys)
    moreover have "map_of (state_dict m') ?key = None"
      by (simp add: lookup_hidden_weight)
    then have "?key \<notin> set (map fst (state_dict m'))"
      by (simp add: map_of_eq_None_iff)
    moreover from unex have "\<forall>key \<in> set (map fst ?sd). key \<in> set (map fst (state_dict m'))"
      by (simp only: filter_empty_conv not_not)
    ultimately show False
      by blast
  qed
  from le ge have len: "length ?ls' = length ?ls" by simp
  have shapes: "\<forall>k<length ?ls.
       shape (weight (?ls ! k)) = shape (weight (?ls' ! k)) \<and>
       shape (bias (?ls ! k)) = shape (bias (?ls' ! k))"
  proof (intro allI impI)
    fix k
    assume k: "k < length ?ls"
    with len have k': "k < length ?ls'" by simp
    then have "?hid ! k = load_linear ?sd (hidden_name k) (?ls' ! k)"
      by (simp add: nth_enumerate_eq)
    moreover from k' have "?hid ! k \<in> set ?hid"
      by (intro nth_mem) simp
    ultimately have "snd (load_linear ?sd (hidden_name k) (?ls' ! k)) = []"
      using hid by auto
    from load_linear_hidden_ok [OF k this]
    show "shape (weight (?ls ! k)) = shape (weight (?ls' ! k)) \<and>
       shape (bias (?ls ! k)) = shape (bias (?ls' ! k))" .
  qed
  from load_linear_output_ok [OF pout] len shapes show ?thesis
    by blast
qed

subsection \<open>The layout of a network\<close>

lemma map_enumerate_ignore: "map (\<lambda>(k, x). f x) (enumerate n xs) = map f xs"
  by (induction xs arbitrary: n) simp_all

lemma layout_linear_Linear:
  "layout_linear (Linear init name a b) = (a, b, [b, a], [b])"
  by (simp add: layout_linear_def Linear_def)

lemma layout_Network:
  assumes "Network init i n hs = Inr m"
  shows "hs \<noteq> [] \<and>
    layout m = (map (\<lambda>(a, b). (a, b, [b, a], [b])) (zip (i # butlast hs) hs),
                (last hs, n, [n, last hs], [n]))"
proof (cases hs)
  case Nil
  with assms show ?thesis by (simp add: Network_def)
next
  case (Cons h t)
  let ?ps = "(i, h) # zip (butlast hs) (tl hs)"
  from Cons assms have m: "m = \<lparr>hidden_layers =
        map (\<lambda>(k, h1, h2). Linear init (hidden_name k) h1 h2) (enumerate 0 ?ps),
      output_layer = Linear init ''output'' (last hs) n\<rparr>"
    by (simp add: Network_def)
  have "map layout_linear (map (\<lambda>(k, h1, h2). Linear init (hidden_name k) h1 h2) (enumerate 0 ?ps))
      = map (\<lambda>(k, x). (\<lambda>(a, b). (a, b, [b, a], [b])) x) (enumerate 0 ?ps)"
    by (simp add: layout_linear_Linear case_prod_beta o_def)
  also have "\<dots> = map (\<lambda>(a, b). (a, b, [b, a], [b])) ?ps"
    by (rule map_enumerate_ignore)
  also have "?ps = zip (i # butlast hs) hs"
    using Cons by simp
  finally show ?thesis
    using Cons m by (simp add: layout_def layout_linear_Linear)
qed

lemma Network_Some: "hs \<noteq> [] \<Longrightarrow> \<exists>m. Network init i n hs = Inr m"
  by (cases hs) (simp_all add: Network_def)

lemma is_Network_iff:
  "is_Network i n hs m \<longleftrightarrow>
     hs \<noteq> [] \<and>
     layout m = (map (\<lambda>(a, b). (a, b, [b, a], [b])) (zip (i # butlast hs) hs),
                 (last hs, n, [n, last hs], [n]))"
proof (cases hs)
  case Nil
  then show ?thesis by (simp add: is_Network_def Network_def)
next
  case (Cons h t)
  then obtain fresh :: "'a network" where f: "Network no_elements i n hs = Inr fresh"
    using Network_Some [of hs no_elements i n] by auto
  from layout_Network [OF f] f show ?thesis
    by (auto simp add: is_Network_def)
qed

lemma is_Network_Network: "Network init i n hs = Inr m \<Longrightarrow> is_Network i n hs m"
  using layout_Network [of init i n hs m] by (simp add: is_Network_iff)

lemma is_Network_same_layout:
  "is_Network i n hs m \<Longrightarrow> is_Network i n hs m' \<Longrightarrow> layout m' = layout m"
  by (simp add: is_Network_iff)

lemma nth_Cons_butlast: "k < length hs \<Longrightarrow> (i # butlast hs) ! k = (i # hs) ! k"
  by (cases k) (simp_all add: nth_butlast)

lemma is_Network_sizes:
  assumes "is_Network i n hs m"
  shows "hs \<noteq> []"
    and "length (hidden_layers m) = length hs"
    and "map out_features (hidden_layers m) = hs"
    and "\<forall>k<length hs. shape (weight (hidden_layers m ! k)) = [hs ! k, (i # hs) ! k]"
    and "shape (weight (output_layer m)) = [n, last hs]"
proof -
  from assms have ne: "hs \<noteq> []"
    and hid: "map layout_linear (hidden_layers m)
       = map (\<lambda>(a, b). (a, b, [b, a], [b])) (zip (i # butlast hs) hs)"
    and out: "layout_linear (output_layer m) = (last hs, n, [n, last hs], [n])"
    by (simp_all add: is_Network_iff layout_def)
  from ne have lz: "length (zip (i # butlast hs) hs) = length hs"
    by simp
  from hid have "length (map layout_linear (hidden_layers m))
       = length (map (\<lambda>(a, b). (a, b, [b, a], [b])) (zip (i # butlast hs) hs))"
    by simp
  with lz have len: "length (hidden_layers m) = length hs"
    by simp
  have nth: "layout_linear (hidden_layers m ! k) = ((i # hs) ! k, hs ! k, [hs ! k, (i # hs) ! k], [hs ! k])"
    if "k < length hs" for k
  proof -
    from that len have "layout_linear (hidden_layers m ! k) = map layout_linear (hidden_layers m) ! k"
      by simp
    also have "\<dots> = map (\<lambda>(a, b). (a, b, [b, a], [b])) (zip (i # butlast hs) hs) ! k"
      by (simp only: hid)
    also have "\<dots> = ((i # hs) ! k, hs ! k, [hs ! k, (i # hs) ! k], [hs ! k])"
      using that lz ne by (simp add: nth_Cons_butlast del: nth_Cons_Suc zip_Cons_Cons)
    finally show ?thesis .
  qed
  show "hs \<noteq> []" by (rule ne)
  show "length (hidden_layers m) = length hs" by (rule len)
  show "map out_features (hidden_layers m) = hs"
  proof (rule nth_equalityI)
    show "length (map out_features (hidden_layers m)) = length hs"
      by (simp add: len)
  next
    fix k
    assume "k < length (map out_features (hidden_layers m))"
    then have k: "k < length hs" by (simp add: len)
    from nth [OF k] k len show "map out_features (hidden_layers m) ! k = hs ! k"
      by (simp add: layout_linear_def)
  qed
  show "\<forall>k<length hs. shape (weight (hidden_layers m ! k)) = [hs ! k, (i # hs) ! k]"
    using nth by (simp add: layout_linear_def)
  show "shape (weight (output_layer m)) = [n, last hs]"
    using out by (simp add: layout_linear_def)
qed

subsection \<open>Loading into a model of the same or of another architecture\<close>

lemma hidden_name_0: "hidden_name 0 = ''hidden_layers.0''"
  and hidden_name_1: "hidden_name (Suc 0) = ''hidden_layers.1''"
  and hidden_name_2: "hidden_name (Suc (Suc 0)) = ''hidden_layers.2''"
  by (simp_all add: hidden_name_def string_of_nat_small digit_def)

lemma load_state_dict_iff_architecture:
  assumes m: "is_Network i n hs m" and m': "is_Network i' n' hs' m'"
  shows "fst (load_state_dict m' (state_dict m)) = None \<longleftrightarrow> i' = i \<and> n' = n \<and> hs' = hs"
proof
  assume "i' = i \<and> n' = n \<and> hs' = hs"
  with m' have "is_Network i n hs m'"
    by simp
  from is_Network_same_layout [OF m this] have "layout m' = layout m" .
  then show "fst (load_state_dict m' (state_dict m)) = None"
    by (simp add: load_state_dict_same_layout)
next
  assume "fst (load_state_dict m' (state_dict m)) = None"
  from load_state_dict_success [OF this]
  have len: "length (hidden_layers m') = length (hidden_layers m)"
    and sh: "\<forall>k<length (hidden_layers m).
       shape (weight (hidden_layers m ! k)) = shape (weight (hidden_layers m' ! k))"
    and out: "shape (weight (output_layer m)) = shape (weight (output_layer m'))"
    by simp_all
  note s = is_Network_sizes [OF m] and s' = is_Network_sizes [OF m']
  from len s(2) s'(2) have lhs: "length hs' = length hs"
    by simp
  have eq: "hs ! k = hs' ! k \<and> (i # hs) ! k = (i' # hs') ! k" if "k < length hs" for k
  proof -
    from that s(2) sh have c: "shape (weight (hidden_layers m ! k)) = shape (weight (hidden_layers m' ! k))"
      by simp
    from s(4) that have a: "shape (weight (hidden_layers m ! k)) = [hs ! k, (i # hs) ! k]"
      by blast
    from that lhs have "k < length hs'"
      by simp
    with s'(4) have b: "shape (weight (hidden_layers m' ! k)) = [hs' ! k, (i' # hs') ! k]"
      by blast
    from a b c show ?thesis
      by simp
  qed
  have hs: "hs' = hs"
  proof (rule nth_equalityI)
    show "length hs' = length hs"
      by (rule lhs)
  next
    fix k
    assume "k < length hs'"
    with lhs have "k < length hs"
      by simp
    from eq [OF this] show "hs' ! k = hs ! k"
      by simp
  qed
  from s(1) have "0 < length hs"
    by simp
  from eq [OF this] have "i' = i"
    by simp
  moreover from out s(5) s'(5) have "n' = n"
    by simp
  ultimately show "i' = i \<and> n' = n \<and> hs' = hs"
    using hs by simp
qed

lemma same_keys_no_missing:
  assumes "length (hidden_layers m') = length (hidden_layers m)"
  shows "filter (\<lambda>k. map_of (state_dict m) k = None) (map fst (state_dict m')) = []"
    and "filter (\<lambda>k. k \<notin> set (map fst (state_dict m'))) (map fst (state_dict m)) = []"
proof -
  have keys: "map fst (state_dict m') = map fst (state_dict m)"
    by (simp add: keys_state_dict assms)
  show "filter (\<lambda>k. map_of (state_dict m) k = None) (map fst (state_dict m')) = []"
    unfolding keys by (simp add: filter_empty_conv map_of_eq_None_iff)
  show "filter (\<lambda>k. k \<notin> set (map fst (state_dict m'))) (map fst (state_dict m)) = []"
    unfolding keys by (simp add: filter_empty_conv)
qed

lemma three_layers:
  assumes "map layout_linear ls = [x, y, z]"
  obtains a b c where "ls = [a, b, c]" "layout_linear a = x" "layout_linear b = y" "layout_linear c = z"
  using assms by (auto simp add: map_eq_Cons_conv)

lemma load_state_dict_512_into_400:
  assumes m: "is_Network 784 10 [512, 256, 128] m"
    and m': "is_Network 784 10 [400, 200, 100] m'"
  shows "load_state_dict m' (state_dict m)
    = (Some (RuntimeError
         [SizeMismatch ''hidden_layers.0.weight'' [512, 784] [400, 784],
          SizeMismatch ''hidden_layers.0.bias'' [512] [400],
          SizeMismatch ''hidden_layers.1.weight'' [256, 512] [200, 400],
          SizeMismatch ''hidden_layers.1.bias'' [256] [200],
          SizeMismatch ''hidden_layers.2.weight'' [128, 256] [100, 200],
          SizeMismatch ''hidden_layers.2.bias'' [128] [100],
          SizeMismatch ''output.weight'' [10, 128] [10, 100]]),
       m'\<lparr>output_layer := (output_layer m')\<lparr>bias := bias (output_layer m)\<rparr>\<rparr>)"
proof -
  from m have lm: "map layout_linear (hidden_layers m)
      = [(784, 512, [512, 784], [512]), (512, 256, [256, 512], [256]), (256, 128, [128, 256], [128])]"
    and om: "layout_linear (output_layer m) = (128, 10, [10, 128], [10])"
    by (simp_all add: is_Network_iff layout_def)
  from m' have lm': "map layout_linear (hidden_layers m')
      = [(784, 400, [400, 784], [400]), (400, 200, [200, 400], [200]), (200, 100, [100, 200], [100])]"
    and om': "layout_linear (output_layer m') = (100, 10, [10, 100], [10])"
    by (simp_all add: is_Network_iff layout_def)
  from lm obtain a b c where ls: "hidden_layers m = [a, b, c]"
    and a: "shape (weight a) = [512, 784]" "shape (bias a) = [512]"
    and b: "shape (weight b) = [256, 512]" "shape (bias b) = [256]"
    and c: "shape (weight c) = [128, 256]" "shape (bias c) = [128]"
    by (rule three_layers) (simp add: layout_linear_def)
  from lm' obtain a' b' c' where ls': "hidden_layers m' = [a', b', c']"
    and a': "shape (weight a') = [400, 784]" "shape (bias a') = [400]"
    and b': "shape (weight b') = [200, 400]" "shape (bias b') = [200]"
    and c': "shape (weight c') = [100, 200]" "shape (bias c') = [100]"
    by (rule three_layers) (simp add: layout_linear_def)
  from om have out: "shape (weight (output_layer m)) = [10, 128]" "shape (bias (output_layer m)) = [10]"
    by (simp_all add: layout_linear_def)
  from om' have out': "shape (weight (output_layer m')) = [10, 100]" "shape (bias (output_layer m')) = [10]"
    by (simp_all add: layout_linear_def)
  have len: "length (hidden_layers m') = length (hidden_layers m)"
    by (simp add: ls ls')
  note keys = same_keys_no_missing [OF len]
  have la: "load_linear (state_dict m) (hidden_name 0) a'
      = (a', [SizeMismatch (hidden_name 0 @ ''.weight'') [512, 784] [400, 784],
              SizeMismatch (hidden_name 0 @ ''.bias'') [512] [400]])"
    by (simp add: load_linear_def load_param_def lookup_hidden_weight lookup_hidden_bias
        ls a a')
  have lb: "load_linear (state_dict m) (hidden_name (Suc 0)) b'
      = (b', [SizeMismatch (hidden_name (Suc 0) @ ''.weight'') [256, 512] [200, 400],
              SizeMismatch (hidden_name (Suc 0) @ ''.bias'') [256] [200]])"
    by (simp add: load_linear_def load_param_def lookup_hidden_weight lookup_hidden_bias
        ls b b')
  have lc: "load_linear (state_dict m) (hidden_name (Suc (Suc 0))) c'
      = (c', [SizeMismatch (hidden_name (Suc (Suc 0)) @ ''.weight'') [128, 256] [100, 200],
              SizeMismatch (hidden_name (Suc (Suc 0)) @ ''.bias'') [128] [100]])"
    by (simp add: load_linear_def load_param_def lookup_hidden_weight lookup_hidden_bias
        ls c c')
  have lo: "load_linear (state_dict m) ''output'' (output_layer m')
      = ((output_layer m')\<lparr>bias := bias (output_layer m)\<rparr>,
         [SizeMismatch ''output.weight'' [10, 128] [10, 100]])"
    by (simp add: load_linear_def load_param_def lookup_output out out')
  have "\<lparr>hidden_layers = [a', b', c'],
         output_layer = (output_layer m')\<lparr>bias := bias (output_layer m)\<rparr>\<rparr>
      = m'\<lparr>output_layer := (output_layer m')\<lparr>bias := bias (output_layer m)\<rparr>\<rparr>"
    using ls' by (cases m') simp
  then show ?thesis
    unfolding load_state_dict_def Let_def keys
    by (simp add: ls' la lb lc lo) (simp_all add: hidden_name_0 hidden_name_1 hidden_name_2)
qed

lemma Network_projr: "hs \<noteq> [] \<Longrightarrow> Network init i n hs = Inr (projr (Network init i n hs))"
  using Network_Some [of hs init i n] by auto

lemma is_Network_projr: "hs \<noteq> [] \<Longrightarrow> is_Network i n hs (projr (Network init i n hs))"
  by (rule is_Network_Network [OF Network_projr])

lemma load_state_dict_512_into_400_differs:
  assumes m: "is_Network 784 10 [512, 256, 128] m"
    and m': "is_Network 784 10 [400, 200, 100] m'"
  shows "snd (load_state_dict m' (state_dict m)) \<noteq> m"
proof
  assume eq: "snd (load_state_dict m' (state_dict m)) = m"
  from load_state_dict_512_into_400 [OF m m'] eq
  have "m = m'\<lparr>output_layer := (output_layer m')\<lparr>bias := bias (output_layer m)\<rparr>\<rparr>"
    by simp
  then have "hidden_layers m
      = hidden_layers (m'\<lparr>output_layer := (output_layer m')\<lparr>bias := bias (output_layer m)\<rparr>\<rparr>)"
    by (rule arg_cong)
  then have "hidden_layers m = hidden_layers m'"
    by simp
  then have "map out_features (hidden_layers m) = map out_features (hidden_layers m')"
    by simp
  with is_Network_sizes(3) [OF m] is_Network_sizes(3) [OF m'] show False
    by simp
qed

text \<open>
  C3. Let \<open>m\<close> be a model of architecture \<open>(i, n, hs)\<close> and \<open>m'\<close> one of architecture
  \<open>(i', n', hs')\<close>. Loading the state dict of \<open>m\<close> into \<open>m'\<close> succeeds exactly
  when the two architectures are the same, and then \<open>m'\<close> becomes \<open>m\<close>. Loading the
  state dict of a model with hidden sizes 512, 256, 128 into one with hidden sizes 400,
  200, 100 raises the recorded size-mismatch error, leaves every hidden layer of the
  receiving model as it was, and does not turn the receiving model into the saved one.
\<close>

theorem load_state_dict_needs_same_architecture:
  assumes "is_Network i n hs m" and "is_Network i' n' hs' m'"
  shows "(fst (load_state_dict m' (state_dict m)) = None \<longleftrightarrow> i' = i \<and> n' = n \<and> hs' = hs) \<and>
    (fst (load_state_dict m' (state_dict m)) = None
       \<longrightarrow> snd (load_state_dict m' (state_dict m)) = m) \<and>
    (i = 784 \<and> n = 10 \<and> hs = [512, 256, 128] \<and> i' = 784 \<and> n' = 10 \<and> hs' = [400, 200, 100]
       \<longrightarrow> fst (load_state_dict m' (state_dict m))
            = Some (RuntimeError
                [SizeMismatch ''hidden_layers.0.weight'' [512, 784] [400, 784],
                 SizeMismatch ''hidden_layers.0.bias'' [512] [400],
                 SizeMismatch ''hidden_layers.1.weight'' [256, 512] [200, 400],
                 SizeMismatch ''hidden_layers.1.bias'' [256] [200],
                 SizeMismatch ''hidden_layers.2.weight'' [128, 256] [100, 200],
                 SizeMismatch ''hidden_layers.2.bias'' [128] [100],
                 SizeMismatch ''output.weight'' [10, 128] [10, 100]]) \<and>
           hidden_layers (snd (load_state_dict m' (state_dict m))) = hidden_layers m' \<and>
           snd (load_state_dict m' (state_dict m)) \<noteq> m)"
proof (intro conjI impI)
  show "fst (load_state_dict m' (state_dict m)) = None \<longleftrightarrow> i' = i \<and> n' = n \<and> hs' = hs"
    by (rule load_state_dict_iff_architecture [OF assms])
next
  assume ok: "fst (load_state_dict m' (state_dict m)) = None"
  with load_state_dict_iff_architecture [OF assms] assms(2) have "is_Network i n hs m'"
    by simp
  from is_Network_same_layout [OF assms(1) this]
  show "snd (load_state_dict m' (state_dict m)) = m"
    by (simp add: load_state_dict_same_layout)
next
  assume "i = 784 \<and> n = 10 \<and> hs = [512, 256, 128] \<and> i' = 784 \<and> n' = 10 \<and> hs' = [400, 200, 100]"
  with assms have m: "is_Network 784 10 [512, 256, 128] m"
    and m': "is_Network 784 10 [400, 200, 100] m'"
    by simp_all
  note run = load_state_dict_512_into_400 [OF m m']
  show "fst (load_state_dict m' (state_dict m))
            = Some (RuntimeError
                [SizeMismatch ''hidden_layers.0.weight'' [512, 784] [400, 784],
                 SizeMismatch ''hidden_layers.0.bias'' [512] [400],
                 SizeMismatch ''hidden_layers.1.weight'' [256, 512] [200, 400],
                 SizeMismatch ''hidden_layers.1.bias'' [256] [200],
                 SizeMismatch ''hidden_layers.2.weight'' [128, 256] [100, 200],
                 SizeMismatch ''hidden_layers.2.bias'' [128] [100],
                 SizeMismatch ''output.weight'' [10, 128] [10, 100]])"
    by (simp add: run)
  show "hidden_layers (snd (load_state_dict m' (state_dict m))) = hidden_layers m'"
    by (simp add: run)
  show "snd (load_state_dict m' (state_dict m)) \<noteq> m"
    by (rule load_state_dict_512_into_400_differs [OF m m'])
qed

text \<open>On the notebook's two models, and on two models of the first architecture.\<close>

theorem load_state_dict_needs_same_architecture_witness:
  "is_Network 784 10 [512, 256, 128] (projr (model_512 zeros)) \<and>
   is_Network 784 10 [400, 200, 100] (projr (model_400 ones)) \<and>
   fst (load_state_dict (projr (model_400 ones)) (state_dict (projr (model_512 zeros))))
     = Some (RuntimeError
                [SizeMismatch ''hidden_layers.0.weight'' [512, 784] [400, 784],
                 SizeMismatch ''hidden_layers.0.bias'' [512] [400],
                 SizeMismatch ''hidden_layers.1.weight'' [256, 512] [200, 400],
                 SizeMismatch ''hidden_layers.1.bias'' [256] [200],
                 SizeMismatch ''hidden_layers.2.weight'' [128, 256] [100, 200],
                 SizeMismatch ''hidden_layers.2.bias'' [128] [100],
                 SizeMismatch ''output.weight'' [10, 128] [10, 100]]) \<and>
   hidden_layers (snd (load_state_dict (projr (model_400 ones)) (state_dict (projr (model_512 zeros)))))
     = hidden_layers (projr (model_400 ones)) \<and>
   is_Network 784 10 [512, 256, 128] (projr (model_512 ones)) \<and>
   load_state_dict (projr (model_512 ones)) (state_dict (projr (model_512 zeros)))
     = (None, projr (model_512 zeros))"
proof -
  have a: "is_Network 784 10 [512, 256, 128] (projr (model_512 zeros))"
    unfolding model_512_def by (rule is_Network_projr) simp
  have b: "is_Network 784 10 [400, 200, 100] (projr (model_400 ones))"
    unfolding model_400_def by (rule is_Network_projr) simp
  have c: "is_Network 784 10 [512, 256, 128] (projr (model_512 ones))"
    unfolding model_512_def by (rule is_Network_projr) simp
  from load_state_dict_needs_same_architecture [OF a b]
  have fails: "fst (load_state_dict (projr (model_400 ones)) (state_dict (projr (model_512 zeros))))
     = Some (RuntimeError
                [SizeMismatch ''hidden_layers.0.weight'' [512, 784] [400, 784],
                 SizeMismatch ''hidden_layers.0.bias'' [512] [400],
                 SizeMismatch ''hidden_layers.1.weight'' [256, 512] [200, 400],
                 SizeMismatch ''hidden_layers.1.bias'' [256] [200],
                 SizeMismatch ''hidden_layers.2.weight'' [128, 256] [100, 200],
                 SizeMismatch ''hidden_layers.2.bias'' [128] [100],
                 SizeMismatch ''output.weight'' [10, 128] [10, 100]])"
    and kept: "hidden_layers (snd (load_state_dict (projr (model_400 ones)) (state_dict (projr (model_512 zeros)))))
     = hidden_layers (projr (model_400 ones))"
    by blast+
  from load_state_dict_needs_same_architecture [OF a c]
  have "fst (load_state_dict (projr (model_512 ones)) (state_dict (projr (model_512 zeros)))) = None"
    and "snd (load_state_dict (projr (model_512 ones)) (state_dict (projr (model_512 zeros))))
      = projr (model_512 zeros)"
    by blast+
  then have loads: "load_state_dict (projr (model_512 ones)) (state_dict (projr (model_512 zeros)))
     = (None, projr (model_512 zeros))"
    by (simp add: prod_eq_iff)
  from a b c fails kept loads show ?thesis
    by blast
qed

subsection \<open>The checkpoint dictionary\<close>

text \<open>
  C5. The checkpoint dictionary has the four keys \<open>input_size\<close>, \<open>output_size\<close>,
  \<open>hidden_layers\<close> and \<open>state_dict\<close> and no other. Under \<open>state_dict\<close> it holds the
  model's state dict, whose keys are the names of the weights and biases of the hidden
  layers and of the output layer, each bound to that tensor of the model; under
  \<open>hidden_layers\<close> it holds the list of the \<open>out_features\<close> of the model's hidden
  layers, which for a model of architecture \<open>(i, n, hs)\<close> is \<open>hs\<close>; under
  \<open>input_size\<close> and \<open>output_size\<close> it holds the numbers written in the cell, 784 and
  10.
\<close>

theorem checkpoint_contents:
  "map fst (checkpoint m) = [''input_size'', ''output_size'', ''hidden_layers'', ''state_dict''] \<and>
   getitem (checkpoint m) ''input_size'' = Inr (IntValue 784) \<and>
   getitem (checkpoint m) ''output_size'' = Inr (IntValue 10) \<and>
   getitem (checkpoint m) ''hidden_layers'' = Inr (ListValue (map out_features (hidden_layers m))) \<and>
   getitem (checkpoint m) ''state_dict'' = Inr (StateDictValue (state_dict m)) \<and>
   map fst (state_dict m)
     = hidden_keys 0 (length (hidden_layers m)) @ [''output.weight'', ''output.bias''] \<and>
   (\<forall>j<length (hidden_layers m).
      map_of (state_dict m) (hidden_name j @ ''.weight'') = Some (weight (hidden_layers m ! j)) \<and>
      map_of (state_dict m) (hidden_name j @ ''.bias'') = Some (bias (hidden_layers m ! j))) \<and>
   map_of (state_dict m) ''output.weight'' = Some (weight (output_layer m)) \<and>
   map_of (state_dict m) ''output.bias'' = Some (bias (output_layer m)) \<and>
   (is_Network i n hs m \<longrightarrow> map out_features (hidden_layers m) = hs)"
proof -
  have "is_Network i n hs m \<longrightarrow> map out_features (hidden_layers m) = hs"
    using is_Network_sizes(3) [of i n hs m] by blast
  then show ?thesis
    by (simp add: checkpoint_def getitem_def keys_state_dict lookup_hidden_weight
        lookup_hidden_bias lookup_output)
qed

lemma hidden_layers_model_512:
  "hidden_layers (projr (model_512 init))
     = [Linear init ''hidden_layers.0'' 784 512, Linear init ''hidden_layers.1'' 512 256,
        Linear init ''hidden_layers.2'' 256 128]"
  by (simp add: model_512_def Network_def hidden_name_0 hidden_name_1 hidden_name_2)

text \<open>On the notebook's first model.\<close>

theorem checkpoint_contents_witness:
  "is_Network 784 10 [512, 256, 128] (projr (model_512 zeros)) \<and>
   getitem (checkpoint (projr (model_512 zeros))) ''hidden_layers'' = Inr (ListValue [512, 256, 128]) \<and>
   (1::nat) < length (hidden_layers (projr (model_512 zeros))) \<and>
   map_of (state_dict (projr (model_512 zeros))) ''hidden_layers.1.weight''
     = Some \<lparr>shape = [256, 512], elements = zeros ''hidden_layers.1.weight'' [256, 512]\<rparr>"
proof -
  let ?m = "projr (model_512 zeros)"
  have a: "is_Network 784 10 [512, 256, 128] ?m"
    unfolding model_512_def by (rule is_Network_projr) simp
  have l: "(1::nat) < length (hidden_layers ?m)"
    by (simp add: hidden_layers_model_512)
  from checkpoint_contents [of ?m 784 10 "[512, 256, 128]"] a
  have b: "getitem (checkpoint ?m) ''hidden_layers'' = Inr (ListValue [512, 256, 128])"
    by simp
  from checkpoint_contents [of ?m 784 10 "[512, 256, 128]"] l
  have "map_of (state_dict ?m) (hidden_name 1 @ ''.weight'') = Some (weight (hidden_layers ?m ! 1))"
    by blast
  then have c: "map_of (state_dict ?m) ''hidden_layers.1.weight''
     = Some \<lparr>shape = [256, 512], elements = zeros ''hidden_layers.1.weight'' [256, 512]\<rparr>"
    using hidden_name_1 by (simp add: hidden_layers_model_512 Linear_def)
  from a b l c show ?thesis
    by blast
qed

subsection \<open>Saving and loading a checkpoint\<close>

text \<open>
  C1, amended. For every model with input size 784 and output size 10, whatever its
  hidden sizes and the elements of its parameters, building the checkpoint dictionary,
  saving it and passing the saved file to \<open>load_checkpoint\<close> returns the model itself:
  the same layers with the same sizes and the same parameter tensors.
\<close>

theorem load_checkpoint_round_trip:
  assumes "is_Network 784 10 hs m"
  shows "load_checkpoint init (torch_save files (checkpoint m) path) path = Inr m"
proof -
  note s = is_Network_sizes [OF assms]
  from Network_Some [OF s(1), of init 784 10] obtain fresh where
    fresh: "Network init 784 10 hs = Inr fresh"
    by blast
  from is_Network_same_layout [OF assms is_Network_Network [OF fresh]]
  have "load_state_dict fresh (state_dict m) = (None, m)"
    by (rule load_state_dict_same_layout)
  with fresh s(3) show ?thesis
    by (simp add: load_checkpoint_def torch_load_def torch_save_def getitem_def checkpoint_def)
qed

text \<open>
  On the model the notebook had built last when it saved the checkpoint,
  \<open>Network(784, 10, [400, 200, 100])\<close>: the model its last cell prints after loading.
\<close>

theorem load_checkpoint_round_trip_witness:
  "is_Network 784 10 [400, 200, 100] (projr (model_400 zeros)) \<and>
   load_checkpoint ones
     (torch_save Map.empty (checkpoint (projr (model_400 zeros))) ''checkpoint.pth'')
     ''checkpoint.pth''
     = Inr (projr (model_400 zeros))"
proof -
  have a: "is_Network 784 10 [400, 200, 100] (projr (model_400 zeros))"
    unfolding model_400_def by (rule is_Network_projr) simp
  from a load_checkpoint_round_trip [OF a, of ones Map.empty "''checkpoint.pth''"]
  show ?thesis
    by blast
qed

lemma small_model:
  "projr (Network init 3 2 [4])
     = \<lparr>hidden_layers = [Linear init ''hidden_layers.0'' 3 4],
        output_layer = Linear init ''output'' 4 2\<rparr>"
  by (simp add: Network_def hidden_name_0)

text \<open>
  C1, as stated for every model. The checkpoint records the input size 784 and the output
  size 10 whatever the model: for the model \<open>Network(3, 2, [4])\<close> the network rebuilt
  by \<open>load_checkpoint\<close> has other shapes than the state dict saved, and the load raises
  instead of returning the model.
\<close>

theorem load_checkpoint_round_trip_counterexample:
  "is_Network 3 2 [4] (projr (Network zeros 3 2 [4])) \<and>
   load_checkpoint ones
     (torch_save Map.empty (checkpoint (projr (Network zeros 3 2 [4]))) ''checkpoint.pth'')
     ''checkpoint.pth''
     = Inl (RuntimeError
         [SizeMismatch ''hidden_layers.0.weight'' [4, 3] [4, 784],
          SizeMismatch ''output.weight'' [2, 4] [10, 4],
          SizeMismatch ''output.bias'' [2] [10]])"
proof -
  have a: "is_Network 3 2 [4] (projr (Network zeros 3 2 [4]))"
    by (rule is_Network_projr) simp
  have "Network ones 784 10 [4]
     = Inr \<lparr>hidden_layers = [Linear ones ''hidden_layers.0'' 784 4],
            output_layer = Linear ones ''output'' 4 10\<rparr>"
    by (simp add: Network_def hidden_name_0)
  then have "load_checkpoint ones
     (torch_save Map.empty (checkpoint (projr (Network zeros 3 2 [4]))) ''checkpoint.pth'')
     ''checkpoint.pth''
     = Inl (RuntimeError
         [SizeMismatch ''hidden_layers.0.weight'' [4, 3] [4, 784],
          SizeMismatch ''output.weight'' [2, 4] [10, 4],
          SizeMismatch ''output.bias'' [2] [10]])"
    by (simp add: load_checkpoint_def torch_load_def torch_save_def getitem_def checkpoint_def
        small_model load_state_dict_def state_dict_def linear_state_def load_linear_def
        load_param_def Linear_def hidden_name_0 Let_def)
  with a show ?thesis
    by blast
qed

section \<open>Errors and who raises them\<close>







end
